theory Spec2Isabelle
  imports Complex_Main
begin

section \<open>The EulerPC integrator of pysisyphus (irc/EulerPC.py)\<close>

text \<open>
  The development embeds the predictor and the corrector of \<^verbatim>\<open>EulerPC.step\<close> and
  \<^verbatim>\<open>EulerPC.corrector_step\<close>. numpy arrays of floats are lists of reals: rounding is
  not modelled. The one place where IEEE arithmetic and the reals part ways in kind, a
  division by a norm that is zero, is kept apart in every function below: numpy yields
  NaN there, HOL yields 0, so the model branches on it and gives the branch the
  behaviour of the NaN.
  All vectors of one run have the length of the coordinate vector, as numpy's
  elementwise operations demand; the lemmas that need this say so.
\<close>

subsection \<open>Vectors and matrices\<close>

type_synonym vec = "real list"
type_synonym mat = "real list list"

definition vadd :: "vec \<Rightarrow> vec \<Rightarrow> vec" where
  "vadd a b = map2 (+) a b"

definition vsub :: "vec \<Rightarrow> vec \<Rightarrow> vec" where
  "vsub a b = map2 (-) a b"

definition vneg :: "vec \<Rightarrow> vec" where
  "vneg a = map uminus a"

definition smult :: "real \<Rightarrow> vec \<Rightarrow> vec" where
  "smult c a = map ((*) c) a"

definition sdiv :: "vec \<Rightarrow> real \<Rightarrow> vec" where
  "sdiv a c = map (\<lambda>x. x / c) a"

definition vdiv :: "vec \<Rightarrow> vec \<Rightarrow> vec" where
  "vdiv a b = map2 (/) a b"

definition dot :: "vec \<Rightarrow> vec \<Rightarrow> real" where
  "dot a b = sum_list (map2 (*) a b)"

text \<open>\<^verbatim>\<open>np.linalg.norm\<close> of a flat vector.\<close>

definition norm_v :: "vec \<Rightarrow> real" where
  "norm_v a = sqrt (sum_list (map (\<lambda>x. x\<^sup>2) a))"

text \<open>\<^verbatim>\<open>H @ v\<close> for a matrix given by its rows, and \<^verbatim>\<open>H + dH\<close>.\<close>

definition mat_vec :: "mat \<Rightarrow> vec \<Rightarrow> vec" where
  "mat_vec H v = map (\<lambda>row. dot row v) H"

definition madd :: "mat \<Rightarrow> mat \<Rightarrow> mat" where
  "madd A B = map2 vadd A B"

text \<open>\<^verbatim>\<open>np.sqrt(np.mean((a - b)**2))\<close>, line 255.\<close>

definition rms_diff :: "vec \<Rightarrow> vec \<Rightarrow> real" where
  "rms_diff a b = sqrt (sum_list (map (\<lambda>x. x\<^sup>2) (vsub a b)) / real (length (vsub a b)))"

subsection \<open>The integration length (lines 62-67)\<close>

definition get_integration_length :: "vec \<Rightarrow> vec \<Rightarrow> vec \<Rightarrow> real" where
  "get_integration_length m_sqrt init_mw_coords cur_mw_coords =
     norm_v (vdiv (vsub cur_mw_coords init_mw_coords) m_sqrt)"

subsection \<open>The corrector (lines 197-264)\<close>

text \<open>
  \<^verbatim>\<open>k_coords[-2]\<close> inside \<^verbatim>\<open>try ... except IndexError: pass\<close>: the entry before the last
  one, or nothing when the list has fewer than two entries.
\<close>

definition index_m2 :: "'a list \<Rightarrow> 'a option" where
  "index_m2 xs = (if 2 \<le> length xs then Some (xs ! (length xs - 2)) else None)"

text \<open>
  The result of the \<^verbatim>\<open>while True\<close> loop of one refinement level: the loop is left by
  \<^verbatim>\<open>break\<close> with the current point, or the whole corrector returns \<^verbatim>\<open>prev_coords\<close>. Both
  carry \<^verbatim>\<open>k_coords\<close> as it stands then.
\<close>

datatype walk_result = Reached vec "vec list" | Oscillation vec "vec list"

text \<open>
  One micro-step, line 226:
  \<^verbatim>\<open>cur_coords += corr_step_length * -gradient/np.linalg.norm(gradient)\<close>.
\<close>

definition corr_displacement :: "real \<Rightarrow> vec \<Rightarrow> vec" where
  "corr_displacement corr_step_length gradient =
     sdiv (smult corr_step_length (vneg gradient)) (norm_v gradient)"

text \<open>
  The loop of lines 218-242. \<open>dwi_gradient\<close> is the gradient that
  \<^verbatim>\<open>dwi.interpolate(cur_coords, gradient=True)\<close> returns; the energy is not used.
  A gradient of norm zero makes every coordinate NaN; from then on the length is NaN, both
  comparisons of the loop are false for ever and the loop never returns: \<open>None\<close>.
\<close>

partial_function (option) corrector_walk ::
  "(vec \<Rightarrow> vec) \<Rightarrow> vec \<Rightarrow> vec \<Rightarrow> real \<Rightarrow> real \<Rightarrow> vec list \<Rightarrow> vec \<Rightarrow> real \<Rightarrow> walk_result option"
where
  "corrector_walk dwi_gradient m_sqrt init_mw_coords step_length corr_step_length
       k_coords cur_coords cur_length =
     (if \<bar>step_length - cur_length\<bar> < 0.5 * corr_step_length
      then Some (Reached cur_coords (k_coords @ [cur_coords]))
      else if norm_v (dwi_gradient cur_coords) = 0 then None
      else
        (case index_m2 (k_coords @ [cur_coords]) of
           None \<Rightarrow>
             corrector_walk dwi_gradient m_sqrt init_mw_coords step_length corr_step_length
               (k_coords @ [cur_coords])
               (vadd cur_coords (corr_displacement corr_step_length (dwi_gradient cur_coords)))
               (get_integration_length m_sqrt init_mw_coords
                 (vadd cur_coords (corr_displacement corr_step_length (dwi_gradient cur_coords))))
         | Some prev_coords \<Rightarrow>
             if norm_v (vsub
                  (vadd cur_coords (corr_displacement corr_step_length (dwi_gradient cur_coords)))
                  prev_coords) \<le> corr_step_length
             then Some (Oscillation prev_coords (k_coords @ [cur_coords]))
             else
               corrector_walk dwi_gradient m_sqrt init_mw_coords step_length corr_step_length
                 (k_coords @ [cur_coords])
                 (vadd cur_coords (corr_displacement corr_step_length (dwi_gradient cur_coords)))
                 (get_integration_length m_sqrt init_mw_coords
                   (vadd cur_coords (corr_displacement corr_step_length (dwi_gradient cur_coords))))))"

text \<open>
  What the code can raise. The corrector: a missing key of the \<^verbatim>\<open>richardson\<close> dictionary,
  and \<^verbatim>\<open>Exception("Richardson did not converge!")\<close> of line 261. The predictor step: an
  index beyond a list, the division of line 118 by a zero budget, and the loop variable
  \<^verbatim>\<open>i\<close> read in line 152 when the loop never ran.
\<close>

datatype error =
  KeyError "nat \<times> nat" | RichardsonDidNotConverge
  | IndexError | ZeroDivisionError | UnboundLocalError

type_synonym table = "nat \<times> nat \<rightharpoonup> vec"

definition points :: "nat \<Rightarrow> nat" where
  "points k = 20 * 2 ^ k"

definition corr_step_length :: "real \<Rightarrow> nat \<Rightarrow> real" where
  "corr_step_length step_length k = step_length / (real (points k) - 1)"

text \<open>
  Lines 247-249, \<^verbatim>\<open>for j in range(1, k+1)\<close>, over the list of the \<open>j\<close> still to do.
  A failing lookup raises with the table as it stands.
\<close>

fun richardson_fill :: "nat \<Rightarrow> nat list \<Rightarrow> table \<Rightarrow> (error \<times> table) + table" where
  "richardson_fill k [] richardson = Inr richardson"
| "richardson_fill k (j # js) richardson =
     (case richardson (k, j - 1) of
        None \<Rightarrow> Inl (KeyError (k, j - 1), richardson)
      | Some a \<Rightarrow>
          (case richardson (k - 1, j - 1) of
             None \<Rightarrow> Inl (KeyError (k - 1, j - 1), richardson)
           | Some b \<Rightarrow>
               richardson_fill k js
                 (richardson((k, j) \<mapsto> sdiv (vsub (smult (2 ^ j) a) b) (2 ^ j - 1)))))"

text \<open>
  How \<^verbatim>\<open>corrector_step\<close> ends: \<^verbatim>\<open>return prev_coords\<close> (line 240),
  \<^verbatim>\<open>return richardson[(k,k)]\<close> (line 264, with the \<open>k\<close> of the \<^verbatim>\<open>break\<close>), or an exception.
\<close>

datatype corrector_outcome =
  OscillationReturn vec | RichardsonReturn nat vec | Raised error

fun returned_coords :: "corrector_outcome \<Rightarrow> error + vec" where
  "returned_coords (OscillationReturn v) = Inr v"
| "returned_coords (RichardsonReturn k v) = Inr v"
| "returned_coords (Raised e) = Inl e"

text \<open>
  The loop \<^verbatim>\<open>for k in range(15)\<close> with its \<^verbatim>\<open>else\<close>, from level \<open>k\<close> on. The result
  carries the \<^verbatim>\<open>richardson\<close> dictionary at the moment the function is left; \<open>None\<close> is a
  level whose walk never returns. The list \<^verbatim>\<open>errors\<close> is written and never read, and
  \<^verbatim>\<open>dwi.dump\<close> only writes a file: both are left out.
\<close>

function corrector_levels ::
  "(vec \<Rightarrow> vec) \<Rightarrow> vec \<Rightarrow> vec \<Rightarrow> real \<Rightarrow> nat \<Rightarrow> table \<Rightarrow> (corrector_outcome \<times> table) option"
where
  "corrector_levels dwi_gradient m_sqrt init_mw_coords step_length k richardson =
     (if 15 \<le> k then Some (Raised RichardsonDidNotConverge, richardson)
      else
        (case corrector_walk dwi_gradient m_sqrt init_mw_coords step_length
                (corr_step_length step_length k) [] init_mw_coords 0 of
           None \<Rightarrow> None
         | Some (Oscillation prev_coords k_coords) \<Rightarrow>
             Some (OscillationReturn prev_coords, richardson)
         | Some (Reached cur_coords k_coords) \<Rightarrow>
             (case richardson_fill k [1..<k + 1] (richardson((k, 0) \<mapsto> cur_coords)) of
                Inl (e, r) \<Rightarrow> Some (Raised e, r)
              | Inr r \<Rightarrow>
                  if 0 < k then
                    (case r (k, k) of
                       None \<Rightarrow> Some (Raised (KeyError (k, k)), r)
                     | Some a \<Rightarrow>
                         (case r (k, k - 1) of
                            None \<Rightarrow> Some (Raised (KeyError (k, k - 1)), r)
                          | Some b \<Rightarrow>
                              if rms_diff a b \<le> 0.00001
                              then Some (RichardsonReturn k a, r)
                              else corrector_levels dwi_gradient m_sqrt init_mw_coords
                                     step_length (Suc k) r))
                  else corrector_levels dwi_gradient m_sqrt init_mw_coords
                         step_length (Suc k) r)))"
  by pat_completeness auto
termination
  by (relation "measure (\<lambda>(d, m, i, s, k, r). 15 - k)") auto

definition corrector_run ::
  "(vec \<Rightarrow> vec) \<Rightarrow> vec \<Rightarrow> vec \<Rightarrow> real \<Rightarrow> (corrector_outcome \<times> table) option" where
  "corrector_run dwi_gradient m_sqrt init_mw_coords step_length =
     corrector_levels dwi_gradient m_sqrt init_mw_coords step_length 0 Map.empty"

text \<open>\<^verbatim>\<open>corrector_step\<close>: what the caller sees, a point or an exception.\<close>

definition corrector_step ::
  "(vec \<Rightarrow> vec) \<Rightarrow> vec \<Rightarrow> vec \<Rightarrow> real \<Rightarrow> (error + vec) option" where
  "corrector_step dwi_gradient m_sqrt init_mw_coords step_length =
     map_option (returned_coords \<circ> fst)
       (corrector_run dwi_gradient m_sqrt init_mw_coords step_length)"

subsection \<open>The object and its collaborators\<close>

text \<open>
  The code of \<^verbatim>\<open>IRC\<close>, \<^verbatim>\<open>Geometry\<close>, \<^verbatim>\<open>DWI\<close>, \<^verbatim>\<open>helpers\<close> and
  \<^verbatim>\<open>hessian_updates\<close> is not part of the sources at hand, so what \<^verbatim>\<open>EulerPC\<close> calls
  there is a parameter: the properties \<^verbatim>\<open>self.energy\<close>, \<^verbatim>\<open>self.mw_gradient\<close> and
  \<^verbatim>\<open>self.mw_hessian\<close> as functions of the mass-weighted coordinates the geometry holds,
  \<^verbatim>\<open>self.hessian_update_func\<close>, \<^verbatim>\<open>self.unweight_vec\<close>, \<^verbatim>\<open>rms\<close>,
  \<^verbatim>\<open>dwi.interpolate(..., gradient=True)\<close> as a function of the stored samples and the
  query point, and the vector \<^verbatim>\<open>self.m_sqrt\<close>.
\<close>

type_synonym sample = "vec \<times> real \<times> vec \<times> mat"

record collaborators =
  calc_energy :: "vec \<Rightarrow> real"
  calc_mw_gradient :: "vec \<Rightarrow> vec"
  calc_mw_hessian :: "vec \<Rightarrow> mat"
  hessian_update_func :: "mat \<Rightarrow> vec \<Rightarrow> vec \<Rightarrow> mat \<times> string"
  unweight_vec :: "vec \<Rightarrow> vec"
  rms :: "vec \<Rightarrow> real"
  dwi_interpolate :: "sample list \<Rightarrow> vec \<Rightarrow> real \<times> vec"
  geom_m_sqrt :: vec

text \<open>
  What one call of \<^verbatim>\<open>step\<close> does to the outside, in order: a read of \<^verbatim>\<open>self.mw_gradient\<close>
  and \<^verbatim>\<open>self.energy\<close> at the coordinates the geometry holds, a read of
  \<^verbatim>\<open>self.mw_hessian\<close>, a call of the Hessian update function, a call of
  \<^verbatim>\<open>dwi.update\<close>, and the call of \<^verbatim>\<open>corrector_step\<close>.
\<close>

datatype event =
  Evaluate vec
  | ExactHessian vec
  | HessianUpdate mat vec vec
  | DwiUpdate vec real vec mat
  | Corrector vec real

text \<open>
  The attributes of \<^verbatim>\<open>self\<close> that \<^verbatim>\<open>step\<close> reads or writes; \<open>self_events\<close> records the
  events above. Modelled from the spec: \<^verbatim>\<open>DWI.update\<close>, which is not in the sources, appends
  the sample to an ordered collection (section 4.3).
\<close>

record eulerpc =
  self_hessian_recalc :: "int option"
  self_max_pred_steps :: int
  self_rms_grad_thresh :: real
  self_step_length :: real
  self_cur_cycle :: nat
  self_mw_coords :: vec
  self_mw_H :: mat
  self_dwi :: "sample list"
  self_converged :: bool
  self_irc_mw_coords :: "vec list"
  self_irc_mw_gradients :: "vec list"
  self_events :: "event list"

subsection \<open>The Hessian at the start of a step (lines 74-87)\<close>

text \<open>
  \<^verbatim>\<open>self.hessian_recalc and (self.cur_cycle % self.hessian_recalc == 0)\<close>: \<^verbatim>\<open>None\<close> and
  \<open>0\<close> are false, so the remainder is only taken for a divisor that is not zero.
\<close>

definition recalc_due :: "int option \<Rightarrow> nat \<Rightarrow> bool" where
  "recalc_due hessian_recalc cur_cycle =
     (case hessian_recalc of
        None \<Rightarrow> False
      | Some n \<Rightarrow> n \<noteq> 0 \<and> int cur_cycle mod n = 0)"

definition hessian_stage :: "collaborators \<Rightarrow> eulerpc \<Rightarrow> error + eulerpc" where
  "hessian_stage env self =
     (let mw_coords = self_mw_coords self;
          mw_grad = calc_mw_gradient env mw_coords;
          energy = calc_energy env mw_coords;
          self1 = self\<lparr>self_events := self_events self @ [Evaluate mw_coords]\<rparr>
      in
        if 0 < self_cur_cycle self then
          (if recalc_due (self_hessian_recalc self) (self_cur_cycle self) then
             (let mw_H = calc_mw_hessian env mw_coords
              in Inr (self1\<lparr>self_mw_H := mw_H,
                    self_dwi := self_dwi self @ [(mw_coords, energy, mw_grad, mw_H)],
                    self_events := self_events self1 @
                      [ExactHessian mw_coords, DwiUpdate mw_coords energy mw_grad mw_H]\<rparr>))
           else
             (case index_m2 (self_irc_mw_coords self) of
                None \<Rightarrow> Inl IndexError
              | Some prev_coords \<Rightarrow>
                  (case index_m2 (self_irc_mw_gradients self) of
                     None \<Rightarrow> Inl IndexError
                   | Some prev_gradient \<Rightarrow>
                       (let dx = vsub mw_coords prev_coords;
                            dg = vsub mw_grad prev_gradient;
                            dH = fst (hessian_update_func env (self_mw_H self) dx dg);
                            mw_H = madd (self_mw_H self) dH
                        in Inr (self1\<lparr>self_mw_H := mw_H,
                              self_dwi := self_dwi self @ [(mw_coords, energy, mw_grad, mw_H)],
                              self_events := self_events self1 @
                                [HessianUpdate (self_mw_H self) dx dg,
                                 DwiUpdate mw_coords energy mw_grad mw_H]\<rparr>)))))
        else Inr self1)"

subsection \<open>The predictor (lines 89-172)\<close>

text \<open>Lines 113-116. Python's \<^verbatim>\<open>max(2, x)\<close> is 2 unless \<open>x > 2\<close>, also for a NaN.\<close>

definition conv_fact :: "collaborators \<Rightarrow> vec \<Rightarrow> real" where
  "conv_fact env mw_grad =
     max 2 (norm_v (unweight_vec env mw_grad) / norm_v mw_grad)"

text \<open>Line 118.\<close>

definition euler_step_length :: "collaborators \<Rightarrow> eulerpc \<Rightarrow> vec \<Rightarrow> real" where
  "euler_step_length env self mw_grad =
     self_step_length self / (real_of_int (self_max_pred_steps self) / conv_fact env mw_grad)"

text \<open>Lines 120-122.\<close>

definition taylor_gradient :: "vec \<Rightarrow> mat \<Rightarrow> vec \<Rightarrow> vec" where
  "taylor_gradient mw_grad mw_H step = vadd mw_grad (mat_vec mw_H step)"

text \<open>Line 146.\<close>

definition euler_displacement :: "real \<Rightarrow> vec \<Rightarrow> vec" where
  "euler_displacement esl euler_mw_grad =
     sdiv (smult esl (vneg euler_mw_grad)) (norm_v euler_mw_grad)"

text \<open>
  How the loop of lines 131-150 ends: by \<^verbatim>\<open>break\<close>, or through its \<^verbatim>\<open>else\<close> with
  coordinates and a Taylor gradient, or through its \<^verbatim>\<open>else\<close> after a division by a
  gradient norm that was zero. In the last case every coordinate is NaN from there on,
  \<^verbatim>\<open>cur_length >= self.step_length\<close> is false in every later pass and the loop runs to its
  end. Each result carries the values \<^verbatim>\<open>cur_length\<close> took in line 133 while they were
  numbers.
\<close>

datatype euler_result =
  ReachedTarget vec vec "real list"
  | Exhausted vec vec "real list"
  | ExhaustedNaN "real list"

text \<open>The loop, by the number of passes that are left.\<close>

fun euler_loop ::
  "vec \<Rightarrow> vec \<Rightarrow> real \<Rightarrow> real \<Rightarrow> vec \<Rightarrow> mat \<Rightarrow> nat \<Rightarrow> vec \<Rightarrow> vec \<Rightarrow> real list \<Rightarrow> euler_result"
where
  "euler_loop m_sqrt init_mw_coords step_length esl mw_grad mw_H 0
       euler_mw_coords euler_mw_grad lengths =
     Exhausted euler_mw_coords euler_mw_grad lengths"
| "euler_loop m_sqrt init_mw_coords step_length esl mw_grad mw_H (Suc n)
       euler_mw_coords euler_mw_grad lengths =
     (if get_integration_length m_sqrt init_mw_coords euler_mw_coords \<ge> step_length
      then ReachedTarget euler_mw_coords euler_mw_grad
             (lengths @ [get_integration_length m_sqrt init_mw_coords euler_mw_coords])
      else if norm_v euler_mw_grad = 0
      then ExhaustedNaN (lengths @ [get_integration_length m_sqrt init_mw_coords euler_mw_coords])
      else
        euler_loop m_sqrt init_mw_coords step_length esl mw_grad mw_H n
          (vadd euler_mw_coords (euler_displacement esl euler_mw_grad))
          (taylor_gradient mw_grad mw_H
             (vsub (vadd euler_mw_coords (euler_displacement esl euler_mw_grad)) init_mw_coords))
          (lengths @ [get_integration_length m_sqrt init_mw_coords euler_mw_coords]))"

text \<open>
  The Euler integration of one step, from the state the Hessian stage leaves: the
  gradient is the one read at the start point.
\<close>

definition predictor :: "collaborators \<Rightarrow> eulerpc \<Rightarrow> euler_result" where
  "predictor env self =
     (let mw_grad = calc_mw_gradient env (self_mw_coords self)
      in euler_loop (geom_m_sqrt env) (self_mw_coords self) (self_step_length self)
           (euler_step_length env self mw_grad) mw_grad (self_mw_H self)
           (nat (self_max_pred_steps self)) (self_mw_coords self) mw_grad [])"

subsection \<open>After the predictor (lines 174-195)\<close>

text \<open>\<^verbatim>\<open>xs[-1]\<close>.\<close>

definition index_m1 :: "'a list \<Rightarrow> 'a option" where
  "index_m1 xs = (if xs = [] then None else Some (last xs))"

text \<open>
  Lines 177-188, from the coordinates the Euler integration reached: the read of gradient
  and energy there, the Hessian update against the last IRC point, and the new sample of
  the DWI.
\<close>

definition endpoint_update :: "collaborators \<Rightarrow> eulerpc \<Rightarrow> vec \<Rightarrow> error + eulerpc" where
  "endpoint_update env self euler_mw_coords =
     (let mw_grad = calc_mw_gradient env euler_mw_coords;
          energy = calc_energy env euler_mw_coords
      in
        case index_m1 (self_irc_mw_coords self) of
          None \<Rightarrow> Inl IndexError
        | Some last_coords \<Rightarrow>
            (case index_m1 (self_irc_mw_gradients self) of
               None \<Rightarrow> Inl IndexError
             | Some last_gradient \<Rightarrow>
                 (let dx = vsub euler_mw_coords last_coords;
                      dg = vsub mw_grad last_gradient;
                      dH = fst (hessian_update_func env (self_mw_H self) dx dg);
                      mw_H = madd (self_mw_H self) dH
                  in Inr (self\<lparr>self_mw_coords := euler_mw_coords,
                        self_mw_H := mw_H,
                        self_dwi := self_dwi self @ [(euler_mw_coords, energy, mw_grad, mw_H)],
                        self_events := self_events self @
                          [Evaluate euler_mw_coords,
                           HessianUpdate (self_mw_H self) dx dg,
                           DwiUpdate euler_mw_coords energy mw_grad mw_H]\<rparr>))))"

text \<open>
  Lines 174-195. The result is \<open>None\<close> when the corrector never returns, an exception, or
  the object with the corrected coordinates.
\<close>

definition post_predictor ::
  "collaborators \<Rightarrow> eulerpc \<Rightarrow> vec \<Rightarrow> vec \<Rightarrow> (error + eulerpc) option" where
  "post_predictor env self init_mw_coords euler_mw_coords =
     (case endpoint_update env self euler_mw_coords of
        Inl e \<Rightarrow> Some (Inl e)
      | Inr self1 \<Rightarrow>
          (case corrector_step (\<lambda>x. snd (dwi_interpolate env (self_dwi self1) x))
                  (geom_m_sqrt env) init_mw_coords (self_step_length self1) of
             None \<Rightarrow> None
           | Some (Inl e) \<Rightarrow> Some (Inl e)
           | Some (Inr corrected_mw_coords) \<Rightarrow>
               Some (Inr (self1\<lparr>self_mw_coords := corrected_mw_coords,
                 self_events := self_events self1 @
                   [Corrector init_mw_coords (self_step_length self1)]\<rparr>))))"

subsection \<open>The step (lines 69-195)\<close>

text \<open>
  With a budget of zero, line 118 divides by zero: a \<^verbatim>\<open>ZeroDivisionError\<close> when the
  divisor is Python's float (the conversion factor was the integer 2), and otherwise an
  infinite step length, after which the loop does not run and line 152 reads the unbound
  \<^verbatim>\<open>i\<close>, as it does for a negative budget.
  After a division by a zero gradient norm the code goes on with NaN coordinates; the
  model does not follow it there and says so by \<open>NaNCoordinates\<close>.
\<close>

datatype step_result = Normal "error + eulerpc" | NaNCoordinates

definition step :: "collaborators \<Rightarrow> eulerpc \<Rightarrow> step_result option" where
  "step env self0 =
     (case hessian_stage env self0 of
        Inl e \<Rightarrow> Some (Normal (Inl e))
      | Inr self \<Rightarrow>
          if self_max_pred_steps self = 0 then
            Some (Normal (Inl
              (if 2 < norm_v (unweight_vec env (calc_mw_gradient env (self_mw_coords self))) /
                        norm_v (calc_mw_gradient env (self_mw_coords self))
               then UnboundLocalError else ZeroDivisionError)))
          else if self_max_pred_steps self < 0 then Some (Normal (Inl UnboundLocalError))
          else
            (case predictor env self of
               ReachedTarget euler_mw_coords euler_mw_grad lengths \<Rightarrow>
                 map_option Normal
                   (post_predictor env self (self_mw_coords self) euler_mw_coords)
             | Exhausted euler_mw_coords euler_mw_grad lengths \<Rightarrow>
                 if rms env (unweight_vec env euler_mw_grad) \<le> 5 * self_rms_grad_thresh self
                 then Some (Normal (Inr (self\<lparr>self_mw_coords := euler_mw_coords,
                                              self_converged := True\<rparr>)))
                 else
                   map_option Normal
                     (post_predictor env (self\<lparr>self_mw_coords := euler_mw_coords\<rparr>)
                        (self_mw_coords self) euler_mw_coords)
             | ExhaustedNaN lengths \<Rightarrow> Some NaNCoordinates))"

fun k_coords_of :: "walk_result \<Rightarrow> vec list" where
  "k_coords_of (Reached c ks) = ks"
| "k_coords_of (Oscillation p ks) = ks"

definition spaced :: "real \<Rightarrow> vec list \<Rightarrow> bool" where
  "spaced c xs = (\<forall>i. Suc i < length xs \<longrightarrow> norm_v (vsub (xs ! Suc i) (xs ! i)) = c)"

definition table_inv :: "(vec \<Rightarrow> vec) \<Rightarrow> vec \<Rightarrow> vec \<Rightarrow> real \<Rightarrow> nat \<Rightarrow> table \<Rightarrow> bool" where
  "table_inv d m i s K R \<longleftrightarrow>
     (\<forall>a b. (a, b) \<in> dom R \<longleftrightarrow> a < K \<and> b \<le> a) \<and>
     (\<forall>a<K. \<exists>path. corrector_walk d m i s (corr_step_length s a) [] i 0 =
                      Some (Reached (the (R (a, 0))) path)) \<and>
     (\<forall>a b. a < K \<and> 1 \<le> b \<and> b \<le> a \<longrightarrow>
        R (a, b) = Some (sdiv (vsub (smult (2 ^ b) (the (R (a, b - 1)))) (the (R (a - 1, b - 1))))
                          (2 ^ b - 1)))"

definition unconverged :: "table \<Rightarrow> nat \<Rightarrow> bool" where
  "unconverged R K \<longleftrightarrow>
     (\<forall>a. 1 \<le> a \<and> a < K \<longrightarrow> 0.00001 < rms_diff (the (R (a, a))) (the (R (a, a - 1))))"

definition corrector_post ::
  "(vec \<Rightarrow> vec) \<Rightarrow> vec \<Rightarrow> vec \<Rightarrow> real \<Rightarrow> corrector_outcome \<Rightarrow> table \<Rightarrow> bool" where
  "corrector_post d m i s out R \<longleftrightarrow>
     (\<exists>K\<le>15. table_inv d m i s K R \<and>
        (case out of
           Raised e \<Rightarrow> e = RichardsonDidNotConverge \<and> K = 15 \<and> unconverged R 15
         | RichardsonReturn k v \<Rightarrow>
             K = Suc k \<and> 1 \<le> k \<and> R (k, k) = Some v \<and>
             rms_diff v (the (R (k, k - 1))) \<le> 0.00001 \<and> unconverged R k
         | OscillationReturn p \<Rightarrow>
             K < 15 \<and> unconverged R K \<and>
             (\<exists>path. corrector_walk d m i s (corr_step_length s K) [] i 0 =
                       Some (Oscillation p path))))"

definition osc_free :: "real \<Rightarrow> vec list \<Rightarrow> bool" where
  "osc_free c xs = (\<forall>n. Suc (Suc n) < length xs \<longrightarrow> c < norm_v (vsub (xs ! Suc (Suc n)) (xs ! n)))"

subsection \<open>Concrete inputs\<close>

text \<open>
  A one-dimensional system with unit mass, started at the origin with step length 1.
  \<open>const_gradient\<close> is a field that points downhill in the positive direction everywhere;
  \<open>flip_gradient\<close> reverses its direction after the first micro-step.
\<close>

definition const_gradient :: "vec \<Rightarrow> vec" where
  "const_gradient x = map (\<lambda>_. - 1) x"

definition flip_gradient :: "vec \<Rightarrow> vec" where
  "flip_gradient x = (if x = [0] then [- 1] else map (\<lambda>_. 1) x)"

definition level0_path :: "vec list" where
  "level0_path = map (\<lambda>n. [real n / 19]) [0..<20]"

definition level1_path :: "vec list" where
  "level1_path = map (\<lambda>n. [real n / 39]) [0..<40]"

definition converged_table :: table where
  "converged_table = [(0, 0) \<mapsto> [1], (1, 0) \<mapsto> [1], (1, 1) \<mapsto> [1]]"

text \<open>
  The same system seen from \<^verbatim>\<open>step\<close>: the surface \<open>E(x) = x + 2 x\<^sup>2\<close> with its gradient
  \<open>1 + 4 x\<close>, a Hessian update that adds nothing, and a DWI that answers with
  \<open>const_gradient\<close>. \<open>toy_self\<close> starts at the origin with the exact Hessian \<open>4\<close>, a budget
  of four Euler steps and a step length of 1.
\<close>

definition toy_env :: collaborators where
  "toy_env = \<lparr>calc_energy = (\<lambda>x. 0),
     calc_mw_gradient = map (\<lambda>a. 1 + 4 * a),
     calc_mw_hessian = (\<lambda>x. [[4]]),
     hessian_update_func = (\<lambda>H dx dg. (map (map (\<lambda>_. 0)) H, ''zero'')),
     unweight_vec = (\<lambda>v. v),
     rms = (\<lambda>v. norm_v v / sqrt (real (length v))),
     dwi_interpolate = (\<lambda>samples x. (0, const_gradient x)),
     geom_m_sqrt = [1]\<rparr>"

definition toy_self :: eulerpc where
  "toy_self = \<lparr>self_hessian_recalc = Some 2, self_max_pred_steps = 4,
     self_rms_grad_thresh = 1, self_step_length = 1, self_cur_cycle = 0,
     self_mw_coords = [0], self_mw_H = [[4]], self_dwi = [], self_converged = False,
     self_irc_mw_coords = [[1], [0]], self_irc_mw_gradients = [[5], [1]],
     self_events = []\<rparr>"

text \<open>
  A straight walk in one dimension: the points \<open>0, c, 2 c, \<dots>, n c\<close>. With the mass
  factor \<open>4/3\<close> and a step length of 100000, level \<open>k\<close> of the corrector takes
  \<open>level_steps k\<close> micro-steps, and its end point misses the target by an amount that
  changes sign from level to level.
\<close>

definition straight_path :: "real \<Rightarrow> nat \<Rightarrow> nat \<Rightarrow> vec list" where
  "straight_path c j n = map (\<lambda>t. [real t * c]) [j..<Suc n]"

definition level_steps :: "nat \<Rightarrow> nat" where
  "level_steps k = (if even k then (4 * points k - 5) div 3 else (4 * points k - 4) div 3)"

text \<open>The values \<^verbatim>\<open>cur_length\<close> took in line 133, whichever way the Euler loop ended.\<close>

fun lengths_of :: "euler_result \<Rightarrow> real list" where
  "lengths_of (ReachedTarget c g ls) = ls"
| "lengths_of (Exhausted c g ls) = ls"
| "lengths_of (ExhaustedNaN ls) = ls"

section \<open>Properties of the corrector\<close>

subsection \<open>Norms and the micro-step\<close>


lemma sum_sq_nonneg: "0 \<le> sum_list (map (\<lambda>x. x\<^sup>2) (a::real list))"
  by (induction a) auto

lemma norm_v_nonneg: "0 \<le> norm_v a"
  by (simp add: norm_v_def sum_sq_nonneg)

lemma norm_v_smult: "norm_v (smult c a) = \<bar>c\<bar> * norm_v a"
proof -
  have "sum_list (map (\<lambda>x. x\<^sup>2) (map ((*) c) a)) = c\<^sup>2 * sum_list (map (\<lambda>x. x\<^sup>2) a)"
    by (induction a) (auto simp: power_mult_distrib algebra_simps)
  then show ?thesis
    by (simp add: norm_v_def smult_def real_sqrt_mult)
qed

lemma norm_v_vneg: "norm_v (vneg a) = norm_v a"
proof -
  have "map (\<lambda>x. x\<^sup>2) (map uminus a) = map (\<lambda>x. x\<^sup>2) a"
    by simp
  then show ?thesis by (simp add: norm_v_def vneg_def comp_def)
qed

lemma norm_v_sdiv: "norm_v (sdiv a c) = norm_v a / \<bar>c\<bar>"
proof -
  have "sum_list (map (\<lambda>x. x\<^sup>2) (map (\<lambda>x. x / c) a)) = sum_list (map (\<lambda>x. x\<^sup>2) a) / c\<^sup>2"
    by (induction a) (auto simp: power_divide add_divide_distrib)
  then show ?thesis
    by (simp add: norm_v_def sdiv_def real_sqrt_divide)
qed

lemma norm_corr_displacement:
  "norm_v g \<noteq> 0 \<Longrightarrow> norm_v (corr_displacement c g) = \<bar>c\<bar>"
  using norm_v_nonneg [of g]
  by (simp add: corr_displacement_def norm_v_sdiv norm_v_smult norm_v_vneg)

lemma length_corr_displacement [simp]: "length (corr_displacement c g) = length g"
  by (simp add: corr_displacement_def sdiv_def smult_def vneg_def)

lemma length_vadd [simp]: "length (vadd a b) = min (length a) (length b)"
  by (simp add: vadd_def)

lemma vsub_vadd_cancel: "length d = length a \<Longrightarrow> vsub (vadd a d) a = d"
  unfolding vsub_def vadd_def
  by (induction a d rule: list_induct2') auto

lemma points_gt_one: "1 < real (points k)"
proof -
  have "(1::real) \<le> 2 ^ k" by simp
  then have "(1::real) < 20 * 2 ^ k" by linarith
  then show ?thesis by (simp add: points_def)
qed

lemma corr_step_length_nonneg: "0 \<le> s \<Longrightarrow> 0 \<le> corr_step_length s k"
  using points_gt_one [of k] by (simp add: corr_step_length_def)


lemma spaced_snoc:
  assumes "spaced c xs" and "xs \<noteq> []" and "norm_v (vsub new (last xs)) = c"
  shows "spaced c (xs @ [new])"
  unfolding spaced_def
proof (intro allI impI)
  fix i assume i: "Suc i < length (xs @ [new])"
  show "norm_v (vsub ((xs @ [new]) ! Suc i) ((xs @ [new]) ! i)) = c"
  proof (cases "Suc i < length xs")
    case True
    then show ?thesis using assms(1) by (simp add: spaced_def nth_append)
  next
    case False
    with i have e: "Suc i = length xs" by simp
    then have "(xs @ [new]) ! Suc i = new" by (simp add: nth_append)
    moreover from e have "(xs @ [new]) ! i = last xs"
      using assms(2) diff_Suc_1 [of i] by (simp add: nth_append last_conv_nth)
    ultimately show ?thesis using assms(3) by simp
  qed
qed

lemma walk_rule:
  assumes run: "corrector_walk d m i s c ks cur len = Some r"
    and init: "I ks cur len"
    and step: "\<And>ks cur len. I ks cur len \<Longrightarrow> \<not> \<bar>s - len\<bar> < 0.5 * c \<Longrightarrow> norm_v (d cur) \<noteq> 0 \<Longrightarrow>
        (\<forall>p. index_m2 (ks @ [cur]) = Some p \<longrightarrow>
              \<not> norm_v (vsub (vadd cur (corr_displacement c (d cur))) p) \<le> c) \<Longrightarrow>
        I (ks @ [cur]) (vadd cur (corr_displacement c (d cur)))
          (get_integration_length m i (vadd cur (corr_displacement c (d cur))))"
    and reach: "\<And>ks cur len. I ks cur len \<Longrightarrow> \<bar>s - len\<bar> < 0.5 * c \<Longrightarrow> Q (Reached cur (ks @ [cur]))"
    and osc: "\<And>ks cur len p. I ks cur len \<Longrightarrow> \<not> \<bar>s - len\<bar> < 0.5 * c \<Longrightarrow> norm_v (d cur) \<noteq> 0 \<Longrightarrow>
        index_m2 (ks @ [cur]) = Some p \<Longrightarrow>
        norm_v (vsub (vadd cur (corr_displacement c (d cur))) p) \<le> c \<Longrightarrow>
        Q (Oscillation p (ks @ [cur]))"
  shows "Q r"
proof -
  have "d = d \<and> m = m \<and> i = i \<and> s = s \<and> c = c \<longrightarrow> I ks cur len \<longrightarrow> Q r"
  proof (rule corrector_walk.raw_induct [where P = "\<lambda>d' m' i' s' c' ks cur len r.
         d' = d \<and> m' = m \<and> i' = i \<and> s' = s \<and> c' = c \<longrightarrow> I ks cur len \<longrightarrow> Q r", OF _ run])
    fix walk d' m' i' s' c' ks cur len r
    let ?new = "vadd cur (corr_displacement c' (d' cur))"
    assume IH: "\<And>d' m' i' s' c' ks cur len r. walk d' m' i' s' c' ks cur len = Some r \<Longrightarrow>
         d' = d \<and> m' = m \<and> i' = i \<and> s' = s \<and> c' = c \<longrightarrow> I ks cur len \<longrightarrow> Q r"
      and body: "(if \<bar>s' - len\<bar> < 0.5 * c' then Some (Reached cur (ks @ [cur]))
        else if norm_v (d' cur) = 0 then None
        else (case index_m2 (ks @ [cur]) of
             None \<Rightarrow> walk d' m' i' s' c' (ks @ [cur]) ?new (get_integration_length m' i' ?new)
           | Some prev_coords \<Rightarrow>
               if norm_v (vsub ?new prev_coords) \<le> c'
               then Some (Oscillation prev_coords (ks @ [cur]))
               else walk d' m' i' s' c' (ks @ [cur]) ?new (get_integration_length m' i' ?new))) = Some r"
    show "d' = d \<and> m' = m \<and> i' = i \<and> s' = s \<and> c' = c \<longrightarrow> I ks cur len \<longrightarrow> Q r"
    proof (intro impI)
      assume eq: "d' = d \<and> m' = m \<and> i' = i \<and> s' = s \<and> c' = c" and I: "I ks cur len"
      show "Q r"
      proof (cases "\<bar>s - len\<bar> < 0.5 * c")
        case True
        with body eq have "r = Reached cur (ks @ [cur])" by auto
        with reach [OF I True] show ?thesis by simp
      next
        case False
        with body eq have g: "norm_v (d cur) \<noteq> 0" by (auto split: if_splits)
        show ?thesis
        proof (cases "\<exists>p. index_m2 (ks @ [cur]) = Some p \<and>
                 norm_v (vsub (vadd cur (corr_displacement c (d cur))) p) \<le> c")
          case True
          then obtain p where p: "index_m2 (ks @ [cur]) = Some p"
            and le: "norm_v (vsub (vadd cur (corr_displacement c (d cur))) p) \<le> c" by blast
          with body eq False g have "r = Oscillation p (ks @ [cur])" by auto
          with osc [OF I False g p le] show ?thesis by simp
        next
          case no: False
          with body eq False g have rec: "walk d m i s c (ks @ [cur])
              (vadd cur (corr_displacement c (d cur)))
              (get_integration_length m i (vadd cur (corr_displacement c (d cur)))) = Some r"
            by (auto split: option.splits if_splits)
          from no have "\<forall>p. index_m2 (ks @ [cur]) = Some p \<longrightarrow>
              \<not> norm_v (vsub (vadd cur (corr_displacement c (d cur))) p) \<le> c" by blast
          from step [OF I False g this] IH [OF rec] show ?thesis by simp
        qed
      qed
    qed
  qed
  with init show ?thesis by simp
qed

lemma walk_spaced:
  assumes run: "corrector_walk d m i s c ks cur len = Some r"
    and d: "\<forall>x. length x = n \<longrightarrow> length (d x) = n"
    and c: "0 \<le> c"
    and n: "length cur = n"
    and sp: "spaced c (ks @ [cur])"
  shows "spaced c (k_coords_of r)"
proof (rule walk_rule [OF run, where I = "\<lambda>ks cur len. length cur = n \<and> spaced c (ks @ [cur])"])
  show "length cur = n \<and> spaced c (ks @ [cur])" using n sp by simp
next
  fix ks cur len
  assume I: "length cur = n \<and> spaced c (ks @ [cur])" and g: "norm_v (d cur) \<noteq> 0"
  let ?new = "vadd cur (corr_displacement c (d cur))"
  from d I have ld: "length (corr_displacement c (d cur)) = length cur" by simp
  have "norm_v (vsub ?new cur) = c"
    using vsub_vadd_cancel [OF ld] norm_corr_displacement [OF g, of c] c by simp
  then have "spaced c ((ks @ [cur]) @ [?new])"
    using spaced_snoc [of c "ks @ [cur]" ?new] I by simp
  moreover have "length ?new = n" using ld I by simp
  ultimately show "length ?new = n \<and> spaced c ((ks @ [cur]) @ [?new])" by simp
next
  fix ks cur len
  assume "length cur = n \<and> spaced c (ks @ [cur])"
  then show "spaced c (k_coords_of (Reached cur (ks @ [cur])))" by simp
next
  fix ks cur len p
  assume "length cur = n \<and> spaced c (ks @ [cur])"
  then show "spaced c (k_coords_of (Oscillation p (ks @ [cur])))" by simp
qed

lemma fill_frame:
  "richardson_fill k js R = Inr R' \<Longrightarrow> \<forall>j\<in>set js. key \<noteq> (k, j) \<Longrightarrow> R' key = R key"
proof (induction js arbitrary: R)
  case Nil
  then show ?case by simp
next
  case (Cons j js)
  from Cons.prems(1) obtain a b where a: "R (k, j - 1) = Some a" and b: "R (k - 1, j - 1) = Some b"
    and rest: "richardson_fill k js (R((k, j) \<mapsto> sdiv (vsub (smult (2 ^ j) a) b) (2 ^ j - 1))) = Inr R'"
    by (auto split: option.splits)
  from Cons.IH [OF rest] Cons.prems(2) show ?case by simp
qed

lemma fill_dom:
  "richardson_fill k js R = Inr R' \<Longrightarrow> dom R' = dom R \<union> {(k, j) |j. j \<in> set js}"
proof (induction js arbitrary: R)
  case Nil
  then show ?case by simp
next
  case (Cons j js)
  from Cons.prems(1) obtain a b where a: "R (k, j - 1) = Some a" and b: "R (k - 1, j - 1) = Some b"
    and rest: "richardson_fill k js (R((k, j) \<mapsto> sdiv (vsub (smult (2 ^ j) a) b) (2 ^ j - 1))) = Inr R'"
    by (auto split: option.splits)
  let ?v = "sdiv (vsub (smult (2 ^ j) a) b) (2 ^ j - 1)"
  have d1: "dom (R((k, j) \<mapsto> ?v)) = insert (k, j) (dom R)"
    by (simp only: dom_fun_upd option.distinct if_False)
  have "dom R' = dom (R((k, j) \<mapsto> ?v)) \<union> {(k, j') |j'. j' \<in> set js}"
    by (rule Cons.IH [OF rest])
  then have "dom R' = insert (k, j) (dom R) \<union> {(k, j') |j'. j' \<in> set js}"
    unfolding d1 .
  then show ?case by auto
qed

lemma fill_value:
  "richardson_fill k js R = Inr R' \<Longrightarrow> sorted_wrt (<) js \<Longrightarrow> 0 < k \<Longrightarrow> \<forall>j\<in>set js. 0 < j \<Longrightarrow>
   j \<in> set js \<Longrightarrow>
     \<exists>a b. R' (k, j - 1) = Some a \<and> R' (k - 1, j - 1) = Some b \<and>
           R' (k, j) = Some (sdiv (vsub (smult (2 ^ j) a) b) (2 ^ j - 1))"
proof (induction js arbitrary: R)
  case Nil
  then show ?case by simp
next
  case (Cons j0 js)
  from Cons.prems(1) obtain a b where a: "R (k, j0 - 1) = Some a" and b: "R (k - 1, j0 - 1) = Some b"
    and rest: "richardson_fill k js (R((k, j0) \<mapsto> sdiv (vsub (smult (2 ^ j0) a) b) (2 ^ j0 - 1))) = Inr R'"
    by (auto split: option.splits)
  let ?R1 = "R((k, j0) \<mapsto> sdiv (vsub (smult (2 ^ j0) a) b) (2 ^ j0 - 1))"
  from Cons.prems(2) have later: "\<forall>j'\<in>set js. j0 < j'" and srt: "sorted_wrt (<) js" by auto
  show ?case
  proof (cases "j = j0")
    case True
    from Cons.prems(4) have j0: "0 < j0" by simp
    have n1: "\<forall>j\<in>set js. (k, j0) \<noteq> (k, j)" using later by auto
    have n2: "\<forall>j\<in>set js. (k, j0 - 1) \<noteq> (k, j)" using later by auto
    have n3: "\<forall>j\<in>set js. (k - 1, j0 - 1) \<noteq> (k, j)" using Cons.prems(3) by auto
    have "R' (k, j0) = ?R1 (k, j0)"
      by (rule fill_frame [OF rest n1])
    moreover have "R' (k, j0 - 1) = ?R1 (k, j0 - 1)"
      by (rule fill_frame [OF rest n2])
    moreover have "R' (k - 1, j0 - 1) = ?R1 (k - 1, j0 - 1)"
      by (rule fill_frame [OF rest n3])
    moreover have "j0 - 1 \<noteq> j0" using j0 by simp
    then have "?R1 (k, j0 - 1) = Some a" using a by simp
    moreover have "k - 1 \<noteq> k" using Cons.prems(3) by simp
    then have "?R1 (k - 1, j0 - 1) = Some b" using b by simp
    ultimately show ?thesis using True by simp
  next
    case False
    with Cons.prems(5) have "j \<in> set js" by simp
    from Cons.IH [OF rest srt Cons.prems(3) _ this] Cons.prems(4) show ?thesis by simp
  qed
qed

lemma fill_succeeds:
  "0 < k \<Longrightarrow> 0 < j0 \<Longrightarrow> (k, j0 - 1) \<in> dom R \<Longrightarrow> \<forall>j. j0 \<le> j \<and> j < n \<longrightarrow> (k - 1, j - 1) \<in> dom R \<Longrightarrow>
   \<exists>R'. richardson_fill k [j0..<n] R = Inr R'"
proof (induction "n - j0" arbitrary: j0 R)
  case 0
  then show ?case by simp
next
  case (Suc d)
  then have lt: "j0 < n" by simp
  from Suc.prems(3) obtain a where a: "R (k, j0 - 1) = Some a" by auto
  from Suc.prems(4) lt obtain b where b: "R (k - 1, j0 - 1) = Some b" by auto
  let ?R1 = "R((k, j0) \<mapsto> sdiv (vsub (smult (2 ^ j0) a) b) (2 ^ j0 - 1))"
  have "\<exists>R'. richardson_fill k [Suc j0..<n] ?R1 = Inr R'"
  proof (rule Suc.hyps(1))
    show "d = n - Suc j0" using Suc.hyps(2) by simp
    show "0 < k" by fact
    show "0 < Suc j0" by simp
    show "(k, Suc j0 - 1) \<in> dom ?R1" by simp
    show "\<forall>j. Suc j0 \<le> j \<and> j < n \<longrightarrow> (k - 1, j - 1) \<in> dom ?R1"
      using Suc.prems(4) by auto
  qed
  then show ?case using lt a b by (simp add: upt_conv_Cons)
qed

lemma table_inv_empty: "table_inv d m i s 0 Map.empty"
  by (simp add: table_inv_def)

lemma level_step:
  assumes inv: "table_inv d m i s K R"
    and walk: "corrector_walk d m i s (corr_step_length s K) [] i 0 = Some (Reached cur path)"
  shows "\<exists>R1. richardson_fill K [1..<K + 1] (R((K, 0) \<mapsto> cur)) = Inr R1 \<and>
              table_inv d m i s (Suc K) R1 \<and> (\<forall>a b. a < K \<longrightarrow> R1 (a, b) = R (a, b))"
proof -
  let ?R0 = "R((K, 0) \<mapsto> cur)"
  from inv have domR: "\<And>a b. (a, b) \<in> dom R \<longleftrightarrow> a < K \<and> b \<le> a"
    by (simp add: table_inv_def)
  have "\<exists>R1. richardson_fill K [1..<K + 1] ?R0 = Inr R1"
  proof (cases "K = 0")
    case True
    then show ?thesis by simp
  next
    case False
    show ?thesis
    proof (rule fill_succeeds)
      show "0 < K" using False by simp
      show "0 < (1::nat)" by simp
      show "(K, 1 - 1) \<in> dom ?R0" by simp
      show "\<forall>j. 1 \<le> j \<and> j < K + 1 \<longrightarrow> (K - 1, j - 1) \<in> dom ?R0"
      proof (intro allI impI)
        fix j assume "1 \<le> j \<and> j < K + 1"
        then have "(K - 1, j - 1) \<in> dom R" using domR [of "K - 1" "j - 1"] False by auto
        then show "(K - 1, j - 1) \<in> dom ?R0" by auto
      qed
    qed
  qed
  then obtain R1 where fill: "richardson_fill K [1..<K + 1] ?R0 = Inr R1" by blast
  have frame: "\<And>a b. (a \<noteq> K \<or> b = 0) \<Longrightarrow> R1 (a, b) = ?R0 (a, b)"
  proof -
    fix a b :: nat assume ab: "a \<noteq> K \<or> b = 0"
    then have "\<forall>j\<in>set [1..<K + 1]. (a, b) \<noteq> (K, j)" by auto
    from fill_frame [OF fill this] show "R1 (a, b) = ?R0 (a, b)" .
  qed
  have old: "\<And>a b. a < K \<Longrightarrow> R1 (a, b) = R (a, b)"
  proof -
    fix a b :: nat assume "a < K"
    then have "a \<noteq> K" by simp
    with frame [of a b] show "R1 (a, b) = R (a, b)" by simp
  qed
  have k0: "R1 (K, 0) = Some cur" using frame [of K 0] by simp
  have dom0: "dom ?R0 = insert (K, 0) (dom R)"
    by (simp only: dom_fun_upd option.distinct if_False)
  have dom1: "\<And>a b. (a, b) \<in> dom R1 \<longleftrightarrow> a < Suc K \<and> b \<le> a"
  proof -
    fix a b :: nat
    have "dom R1 = insert (K, 0) (dom R) \<union> {(K, j) |j. j \<in> set [1..<K + 1]}"
      using fill_dom [OF fill] unfolding dom0 .
    then have "(a, b) \<in> dom R1 \<longleftrightarrow> (a, b) = (K, 0) \<or> (a, b) \<in> dom R \<or> (a = K \<and> 1 \<le> b \<and> b \<le> K)"
      by auto
    also have "\<dots> \<longleftrightarrow> a < Suc K \<and> b \<le> a"
      using domR [of a b] by auto
    finally show "(a, b) \<in> dom R1 \<longleftrightarrow> a < Suc K \<and> b \<le> a" .
  qed
  have walks: "\<forall>a<Suc K. \<exists>path. corrector_walk d m i s (corr_step_length s a) [] i 0 =
                      Some (Reached (the (R1 (a, 0))) path)"
  proof (intro allI impI)
    fix a assume "a < Suc K"
    then consider "a < K" | "a = K" by linarith
    then show "\<exists>path. corrector_walk d m i s (corr_step_length s a) [] i 0 =
                      Some (Reached (the (R1 (a, 0))) path)"
    proof cases
      case 1
      with inv old [of a 0] show ?thesis by (simp add: table_inv_def)
    next
      case 2
      with walk k0 show ?thesis by simp
    qed
  qed
  have vals: "\<forall>a b. a < Suc K \<and> 1 \<le> b \<and> b \<le> a \<longrightarrow>
        R1 (a, b) = Some (sdiv (vsub (smult (2 ^ b) (the (R1 (a, b - 1)))) (the (R1 (a - 1, b - 1))))
                          (2 ^ b - 1))"
  proof (intro allI impI)
    fix a b :: nat assume h: "a < Suc K \<and> 1 \<le> b \<and> b \<le> a"
    then consider "a < K" | "a = K" by linarith
    then show "R1 (a, b) = Some (sdiv (vsub (smult (2 ^ b) (the (R1 (a, b - 1)))) (the (R1 (a - 1, b - 1))))
                          (2 ^ b - 1))"
    proof cases
      case 1
      then have "a - 1 < K" by simp
      with 1 old [of a b] old [of a "b - 1"] old [of "a - 1" "b - 1"] inv h show ?thesis
        by (simp add: table_inv_def)
    next
      case 2
      with h have K: "0 < K" and b: "b \<in> set [1..<K + 1]" by auto
      have "sorted_wrt (<) [1..<K + 1]" by (rule sorted_wrt_upt)
      moreover have "\<forall>j\<in>set [1..<K + 1]. 0 < j" by auto
      ultimately obtain x y where "R1 (K, b - 1) = Some x" "R1 (K - 1, b - 1) = Some y"
          "R1 (K, b) = Some (sdiv (vsub (smult (2 ^ b) x) y) (2 ^ b - 1))"
        using fill_value [OF fill _ K _ b] by blast
      with 2 show ?thesis by simp
    qed
  qed
  from dom1 walks vals have "table_inv d m i s (Suc K) R1"
    unfolding table_inv_def by blast
  with fill old show ?thesis by blast
qed

lemma unconverged_frame:
  "unconverged R k \<Longrightarrow> \<forall>a b. a < k \<longrightarrow> R1 (a, b) = R (a, b) \<Longrightarrow> unconverged R1 k"
  by (simp add: unconverged_def)

lemma unconverged_Suc:
  "unconverged R k \<Longrightarrow> (1 \<le> k \<Longrightarrow> 0.00001 < rms_diff (the (R (k, k))) (the (R (k, k - 1)))) \<Longrightarrow>
   unconverged R (Suc k)"
  by (auto simp: unconverged_def less_Suc_eq)

declare corrector_levels.simps [simp del]

lemma levels_post:
  "table_inv d m i s k R \<Longrightarrow> unconverged R k \<Longrightarrow> k \<le> 15 \<Longrightarrow>
   corrector_levels d m i s k R = Some (out, R') \<Longrightarrow> corrector_post d m i s out R'"
proof (induction "15 - k" arbitrary: k R)
  case 0
  then have k: "k = 15" by simp
  with "0.prems"(4) have "out = Raised RichardsonDidNotConverge" "R' = R"
    by (simp_all add: corrector_levels.simps)
  with "0.prems"(1,2) k show ?case
    unfolding corrector_post_def by (intro exI [of _ 15]) simp
next
  case (Suc n)
  then have k: "k < 15" by simp
  note run = Suc.prems(4) [unfolded corrector_levels.simps [of d m i s k R]]
  show ?case
  proof (cases "corrector_walk d m i s (corr_step_length s k) [] i 0")
    case None
    with run k show ?thesis by simp
  next
    case (Some w)
    show ?thesis
    proof (cases w)
      case (Oscillation p path)
      with Some have walk_eq:
        "corrector_walk d m i s (corr_step_length s k) [] i 0 = Some (Oscillation p path)" by simp
      with run k have "out = OscillationReturn p" "R' = R" by simp_all
      with Suc.prems(1,2) k walk_eq show ?thesis
        unfolding corrector_post_def by (intro exI [of _ k]) auto
    next
      case (Reached cur path)
      with Some have walk: "corrector_walk d m i s (corr_step_length s k) [] i 0 = Some (Reached cur path)"
        by simp
      from level_step [OF Suc.prems(1) walk] obtain R1 where
        fill: "richardson_fill k [1..<k + 1] (R((k, 0) \<mapsto> cur)) = Inr R1"
        and inv1: "table_inv d m i s (Suc k) R1"
        and old: "\<forall>a b. a < k \<longrightarrow> R1 (a, b) = R (a, b)" by blast
      have unc1: "unconverged R1 k" by (rule unconverged_frame [OF Suc.prems(2) old])
      from inv1 have dom1: "\<And>a b. (a, b) \<in> dom R1 \<longleftrightarrow> a < Suc k \<and> b \<le> a"
        by (simp add: table_inv_def)
      from dom1 [of k k] obtain x where x: "R1 (k, k) = Some x" by auto
      from dom1 [of k "k - 1"] obtain y where y: "R1 (k, k - 1) = Some y" by auto
      have n: "n = 15 - Suc k" using Suc.hyps(2) by simp
      have le: "Suc k \<le> 15" using k by simp
      show ?thesis
      proof (cases "0 < k \<and> rms_diff x y \<le> 0.00001")
        case True
        with run k walk fill x y have "out = RichardsonReturn k x" "R' = R1" by simp_all
        with inv1 unc1 x y True le show ?thesis
          unfolding corrector_post_def by (intro exI [of _ "Suc k"]) auto
      next
        case False
        with run k walk fill x y have rec: "corrector_levels d m i s (Suc k) R1 = Some (out, R')"
          by (auto split: if_splits)
        have "unconverged R1 (Suc k)"
          using unconverged_Suc [OF unc1] False x y by auto
        from Suc.hyps(1) [OF n inv1 this le rec] show ?thesis .
      qed
    qed
  qed
qed

lemma run_post:
  "corrector_run d m i s = Some (out, R) \<Longrightarrow> corrector_post d m i s out R"
  unfolding corrector_run_def
  by (rule levels_post [OF table_inv_empty]) (simp_all add: unconverged_def)

subsection \<open>The oscillation guard\<close>

lemma index_m2_snoc: "index_m2 (ks @ [cur]) = (if ks = [] then None else Some (last ks))"
proof (cases "ks = []")
  case True
  then show ?thesis by (simp add: index_m2_def)
next
  case False
  then have "length ks - Suc 0 < length ks" by (cases ks) simp_all
  then have "(ks @ [cur]) ! (length ks - Suc 0) = last ks"
    using False by (simp add: nth_append last_conv_nth)
  moreover have "Suc 0 \<le> length ks" using False by (cases ks) simp_all
  ultimately show ?thesis using False
    by (simp add: index_m2_def numeral_2_eq_2)
qed

lemma osc_free_snoc:
  assumes "osc_free c xs"
    and "\<forall>p. index_m2 xs = Some p \<longrightarrow> c < norm_v (vsub new p)"
  shows "osc_free c (xs @ [new])"
  unfolding osc_free_def
proof (intro allI impI)
  fix n assume n: "Suc (Suc n) < length (xs @ [new])"
  show "c < norm_v (vsub ((xs @ [new]) ! Suc (Suc n)) ((xs @ [new]) ! n))"
  proof (cases "Suc (Suc n) < length xs")
    case True
    then show ?thesis using assms(1) by (simp add: osc_free_def nth_append)
  next
    case False
    with n have e: "Suc (Suc n) = length xs" by simp
    then have "index_m2 xs = Some (xs ! n)"
      by (simp add: index_m2_def) (metis diff_Suc_Suc diff_zero numeral_2_eq_2)
    with assms(2) have "c < norm_v (vsub new (xs ! n))" by simp
    moreover from e have "(xs @ [new]) ! Suc (Suc n) = new" "(xs @ [new]) ! n = xs ! n"
      by (simp_all add: nth_append)
    ultimately show ?thesis by simp
  qed
qed

lemma walk_oscillation:
  assumes run: "corrector_walk d m i s c [] i 0 = Some (Oscillation p path)"
  shows "2 \<le> length path \<and> p = path ! (length path - 2) \<and>
         norm_v (vsub (vadd (last path) (corr_displacement c (d (last path)))) p) \<le> c \<and>
         osc_free c path"
proof -
  let ?Q = "\<lambda>r. case r of Reached x xs \<Rightarrow> True
       | Oscillation p path \<Rightarrow> 2 \<le> length path \<and> p = path ! (length path - 2) \<and>
           norm_v (vsub (vadd (last path) (corr_displacement c (d (last path)))) p) \<le> c \<and>
           osc_free c path"
  have "?Q (Oscillation p path)"
  proof (rule walk_rule [OF run, where I = "\<lambda>ks cur len. osc_free c (ks @ [cur])" and Q = ?Q])
    show "osc_free c ([] @ [i])" by (simp add: osc_free_def)
  next
    fix ks cur len
    assume a: "osc_free c (ks @ [cur])"
      and b: "\<forall>p. index_m2 (ks @ [cur]) = Some p \<longrightarrow>
             \<not> norm_v (vsub (vadd cur (corr_displacement c (d cur))) p) \<le> c"
    from b have "\<forall>p. index_m2 (ks @ [cur]) = Some p \<longrightarrow>
             c < norm_v (vsub (vadd cur (corr_displacement c (d cur))) p)" by auto
    with a show "osc_free c ((ks @ [cur]) @ [vadd cur (corr_displacement c (d cur))])"
      by (rule osc_free_snoc)
  next
    fix ks cur len
    show "?Q (Reached cur (ks @ [cur]))" by simp
  next
    fix ks cur len p
    assume "osc_free c (ks @ [cur])" and "index_m2 (ks @ [cur]) = Some p"
      and "norm_v (vsub (vadd cur (corr_displacement c (d cur))) p) \<le> c"
    then show "?Q (Oscillation p (ks @ [cur]))"
      by (auto simp: index_m2_def split: if_splits)
  qed
  then show ?thesis by auto
qed

subsection \<open>The concrete runs\<close>


lemma norm_v_single [simp]: "norm_v [x] = \<bar>x\<bar>"
  by (simp add: norm_v_def)

lemma rms_diff_single [simp]: "rms_diff [x] [y] = \<bar>x - y\<bar>"
  by (simp add: rms_diff_def vsub_def)

lemmas vec_eval = vadd_def vsub_def vneg_def smult_def sdiv_def vdiv_def
  corr_displacement_def get_integration_length_def index_m2_def

lemma level0_walk:
  "corrector_walk const_gradient [1] [0] 1 (corr_step_length 1 0) [] [0] 0 =
     Some (Reached [1] level0_path)"
  by (simp add: corrector_walk.simps vec_eval const_gradient_def corr_step_length_def points_def
      level0_path_def upt_rec)

lemma level1_walk:
  "corrector_walk const_gradient [1] [0] 1 (corr_step_length 1 (Suc 0)) [] [0] 0 =
     Some (Reached [1] level1_path)"
  by (simp add: corrector_walk.simps vec_eval const_gradient_def corr_step_length_def points_def
      level1_path_def upt_rec)

lemma converged_run:
  "corrector_run const_gradient [1] [0] 1 = Some (RichardsonReturn 1 [1], converged_table)"
  by (simp add: corrector_run_def corrector_levels.simps [of _ _ _ _ 0]
      corrector_levels.simps [of _ _ _ _ "Suc 0"] level0_walk level1_walk
      vsub_def smult_def sdiv_def converged_table_def)

lemma flip_walk:
  "corrector_walk flip_gradient [1] [0] 1 (corr_step_length 1 0) [] [0] 0 =
     Some (Oscillation [0] [[0], [1 / 19]])"
  by (simp add: corrector_walk.simps vec_eval flip_gradient_def corr_step_length_def points_def)

lemma flip_run:
  "corrector_run flip_gradient [1] [0] 1 = Some (OscillationReturn [0], Map.empty)"
  by (simp add: corrector_run_def corrector_levels.simps [of _ _ _ _ 0] flip_walk)

section \<open>Properties of the predictor step\<close>

lemma norm_euler_displacement:
  "norm_v g \<noteq> 0 \<Longrightarrow> norm_v (euler_displacement c g) = \<bar>c\<bar>"
  using norm_v_nonneg [of g]
  by (simp add: euler_displacement_def norm_v_sdiv norm_v_smult norm_v_vneg)

lemma conv_fact_ge_2: "2 \<le> conv_fact env g"
  by (simp add: conv_fact_def)

lemmas toy_eval = toy_env_def toy_self_def vec_eval euler_displacement_def taylor_gradient_def
  mat_vec_def dot_def euler_step_length_def conv_fact_def

lemma toy_predictor:
  "predictor toy_env toy_self = Exhausted [0] [1] [0, 1 / 2, 0, 1 / 2]"
  by (simp add: predictor_def Let_def toy_eval eval_nat_numeral)

lemma hessian_stage_frame:
  assumes "hessian_stage env self0 = Inr self"
  shows "self_mw_coords self = self_mw_coords self0 \<and>
         self_step_length self = self_step_length self0 \<and>
         self_max_pred_steps self = self_max_pred_steps self0 \<and>
         self_rms_grad_thresh self = self_rms_grad_thresh self0 \<and>
         self_irc_mw_coords self = self_irc_mw_coords self0 \<and>
         self_irc_mw_gradients self = self_irc_mw_gradients self0 \<and>
         self_converged self = self_converged self0"
  using assms
  by (auto simp: hessian_stage_def Let_def split: if_splits option.splits)

lemma euler_loop_exhausted:
  "euler_loop m i s esl g H n c gr ls = Exhausted c' gr' ls' \<Longrightarrow>
   \<exists>new. ls' = ls @ new \<and> length new = n \<and> (\<forall>l\<in>set new. l < s)"
proof (induction n arbitrary: c gr ls)
  case 0
  then show ?case by simp
next
  case (Suc n)
  let ?l = "get_integration_length m i c"
  from Suc.prems have lt: "?l < s" and g: "norm_v gr \<noteq> 0"
    and rec: "euler_loop m i s esl g H n (vadd c (euler_displacement esl gr))
        (taylor_gradient g H (vsub (vadd c (euler_displacement esl gr)) i)) (ls @ [?l]) =
      Exhausted c' gr' ls'"
    by (auto split: if_splits)
  from Suc.IH [OF rec] obtain new where "ls' = (ls @ [?l]) @ new" "length new = n"
    "\<forall>l\<in>set new. l < s" by blast
  with lt have "ls' = ls @ (?l # new) \<and> length (?l # new) = Suc n \<and> (\<forall>l\<in>set (?l # new). l < s)"
    by simp
  then show ?case by blast
qed

lemma predictor_exhausted_lengths:
  assumes "predictor env self = Exhausted c gr ls"
  shows "length ls = nat (self_max_pred_steps self) \<and> (\<forall>l\<in>set ls. l < self_step_length self)"
  using euler_loop_exhausted [OF assms [unfolded predictor_def Let_def]] by auto

lemma toy_stage:
  "hessian_stage toy_env (toy_self\<lparr>self_rms_grad_thresh := t\<rparr>) =
     Inr (toy_self\<lparr>self_rms_grad_thresh := t, self_events := [Evaluate [0]]\<rparr>)"
  by (simp add: hessian_stage_def toy_self_def toy_env_def)

lemma toy_staged_predictor:
  "predictor toy_env (toy_self\<lparr>self_rms_grad_thresh := t, self_events := ev\<rparr>) =
     Exhausted [0] [1] [0, 1 / 2, 0, 1 / 2]"
  by (simp add: predictor_def Let_def toy_eval eval_nat_numeral)

lemma toy_corrector:
  "corrector_step (\<lambda>x. snd (dwi_interpolate toy_env samples x)) (geom_m_sqrt toy_env) [0] 1 =
     Some (Inr [1])"
  by (simp add: toy_env_def corrector_step_def converged_run)


lemma toy_flat_predictor:
  "predictor toy_env (toy_self\<lparr>self_mw_H := [[0]], self_events := ev\<rparr>) =
     ReachedTarget [- 1] [1] [0, 1 / 2, 1]"
  by (simp add: predictor_def Let_def toy_eval eval_nat_numeral)



subsection \<open>The arc length along the Euler integration\<close>

lemma norm_v_Cons: "norm_v (x # xs) = sqrt (x\<^sup>2 + (norm_v xs)\<^sup>2)"
  by (simp add: norm_v_def sum_sq_nonneg)

lemma norm_v_triangle:
  "length a = length b \<Longrightarrow> norm_v (vadd a b) \<le> norm_v a + norm_v b"
proof (induction a b rule: list_induct2)
  case Nil
  then show ?case by (simp add: vadd_def norm_v_def)
next
  case (Cons x xs y ys)
  have v: "vadd (x # xs) (y # ys) = (x + y) # vadd xs ys" by (simp add: vadd_def)
  have "(norm_v (vadd xs ys))\<^sup>2 \<le> (norm_v xs + norm_v ys)\<^sup>2"
    using Cons.IH norm_v_nonneg [of "vadd xs ys"] by (intro power_mono) simp_all
  then have "sqrt ((x + y)\<^sup>2 + (norm_v (vadd xs ys))\<^sup>2) \<le>
      sqrt ((x + y)\<^sup>2 + (norm_v xs + norm_v ys)\<^sup>2)"
    by simp
  also have "\<dots> \<le> sqrt (x\<^sup>2 + (norm_v xs)\<^sup>2) + sqrt (y\<^sup>2 + (norm_v ys)\<^sup>2)"
    by (rule real_sqrt_sum_squares_triangle_ineq)
  finally show ?case by (simp add: v norm_v_Cons)
qed

lemma vdiv_shift:
  "length c = length d \<Longrightarrow> length d = length i \<Longrightarrow> length i = length m \<Longrightarrow>
   vdiv (vsub (vadd c d) i) m = vadd (vdiv (vsub c i) m) (vdiv d m)"
proof (induction c d i m rule: list_induct4)
  case Nil
  then show ?case by (simp add: vdiv_def vsub_def vadd_def)
next
  case (Cons x xs y ys z zs w ws)
  then show ?case
    by (simp add: vdiv_def vsub_def vadd_def diff_divide_distrib add_divide_distrib algebra_simps)
qed

lemma norm_v_vdiv_le:
  "length d = length m \<Longrightarrow> 0 < \<mu> \<Longrightarrow> \<forall>x\<in>set m. \<mu> \<le> x \<Longrightarrow> norm_v (vdiv d m) \<le> norm_v d / \<mu>"
proof -
  assume len: "length d = length m" and mu: "0 < \<mu>" and m: "\<forall>x\<in>set m. \<mu> \<le> x"
  from len m have "sum_list (map (\<lambda>x. x\<^sup>2) (vdiv d m)) \<le> sum_list (map (\<lambda>x. x\<^sup>2) d) / \<mu>\<^sup>2"
  proof (induction d m rule: list_induct2)
    case Nil
    then show ?case by (simp add: vdiv_def)
  next
    case (Cons x xs y ys)
    from Cons.prems have y: "\<mu> \<le> y" and rest: "\<forall>x\<in>set ys. \<mu> \<le> x" by simp_all
    from y mu have "\<mu>\<^sup>2 \<le> y\<^sup>2" by (intro power_mono) simp_all
    moreover from y mu have "0 < y\<^sup>2" by simp
    ultimately have "x\<^sup>2 / y\<^sup>2 \<le> x\<^sup>2 / \<mu>\<^sup>2"
      using mu by (intro divide_left_mono) simp_all
    with Cons.IH [OF rest] show ?case
      by (simp add: vdiv_def power_divide add_divide_distrib)
  qed
  then have "sqrt (sum_list (map (\<lambda>x. x\<^sup>2) (vdiv d m))) \<le> sqrt (sum_list (map (\<lambda>x. x\<^sup>2) d) / \<mu>\<^sup>2)"
    by simp
  then show ?thesis using mu by (simp add: norm_v_def real_sqrt_divide)
qed

lemma integration_length_step:
  assumes "length c = n" "length d = n" "length i = n" "length m = n"
    and "0 < \<mu>" "\<forall>x\<in>set m. \<mu> \<le> x"
  shows "get_integration_length m i (vadd c d) \<le> get_integration_length m i c + norm_v d / \<mu>"
proof -
  have "vdiv (vsub (vadd c d) i) m = vadd (vdiv (vsub c i) m) (vdiv d m)"
    using assms by (intro vdiv_shift) simp_all
  moreover have "length (vdiv (vsub c i) m) = length (vdiv d m)"
    using assms by (simp add: vdiv_def vsub_def)
  ultimately have "get_integration_length m i (vadd c d) \<le>
      get_integration_length m i c + norm_v (vdiv d m)"
    using norm_v_triangle [of "vdiv (vsub c i) m" "vdiv d m"]
    by (simp add: get_integration_length_def)
  moreover have "norm_v (vdiv d m) \<le> norm_v d / \<mu>"
    using assms by (intro norm_v_vdiv_le) simp_all
  ultimately show ?thesis by linarith
qed

lemma length_euler_displacement [simp]: "length (euler_displacement c g) = length g"
  by (simp add: euler_displacement_def sdiv_def smult_def vneg_def)

lemma length_taylor_gradient [simp]:
  "length (taylor_gradient g H v) = min (length g) (length H)"
  by (simp add: taylor_gradient_def mat_vec_def)

lemma euler_loop_reached:
  assumes shapes: "length i = n" "length m = n" "length g = n" "length H = n"
    and mu: "0 < \<mu>" "\<forall>x\<in>set m. \<mu> \<le> x"
  shows "euler_loop m i s esl g H k c gr ls = ReachedTarget c' gr' ls' \<Longrightarrow>
         length c = n \<Longrightarrow> length gr = n \<Longrightarrow>
         \<exists>new. ls' = ls @ new \<and> new \<noteq> [] \<and>
           hd new = get_integration_length m i c \<and>
           last new = get_integration_length m i c' \<and> s \<le> last new \<and>
           (\<forall>l\<in>set (butlast new). l < s) \<and>
           (\<forall>j. Suc j < length new \<longrightarrow> new ! Suc j \<le> new ! j + \<bar>esl\<bar> / \<mu>)"
proof (induction k arbitrary: c gr ls)
  case 0
  then show ?case by simp
next
  case (Suc k)
  let ?l = "get_integration_length m i c"
  let ?c2 = "vadd c (euler_displacement esl gr)"
  show ?case
  proof (cases "s \<le> ?l")
    case True
    with Suc.prems(1) have "c' = c" "ls' = ls @ [?l]" by auto
    with True show ?thesis by (intro exI [of _ "[?l]"]) simp
  next
    case False
    with Suc.prems(1) have g0: "norm_v gr \<noteq> 0"
      and rec: "euler_loop m i s esl g H k ?c2 (taylor_gradient g H (vsub ?c2 i)) (ls @ [?l]) =
        ReachedTarget c' gr' ls'"
      by (auto split: if_splits)
    have l2: "length ?c2 = n" using Suc.prems(2,3) by simp
    have l3: "length (taylor_gradient g H (vsub ?c2 i)) = n" using shapes by simp
    from Suc.IH [OF rec l2 l3] obtain new where new: "ls' = (ls @ [?l]) @ new" "new \<noteq> []"
      "hd new = get_integration_length m i ?c2" "last new = get_integration_length m i c'"
      "s \<le> last new" "\<forall>l\<in>set (butlast new). l < s"
      "\<forall>j. Suc j < length new \<longrightarrow> new ! Suc j \<le> new ! j + \<bar>esl\<bar> / \<mu>"
      by blast
    have "get_integration_length m i ?c2 \<le> ?l + norm_v (euler_displacement esl gr) / \<mu>"
      using Suc.prems(2,3) shapes mu by (intro integration_length_step [where n = n]) simp_all
    then have first: "hd new \<le> ?l + \<bar>esl\<bar> / \<mu>"
      using new(3) norm_euler_displacement [OF g0, of esl] by simp
    have cons: "\<forall>j. Suc j < length (?l # new) \<longrightarrow> (?l # new) ! Suc j \<le> (?l # new) ! j + \<bar>esl\<bar> / \<mu>"
    proof (intro allI impI)
      fix j assume j: "Suc j < length (?l # new)"
      show "(?l # new) ! Suc j \<le> (?l # new) ! j + \<bar>esl\<bar> / \<mu>"
      proof (cases j)
        case 0
        with first new(2) show ?thesis by (simp add: hd_conv_nth)
      next
        case (Suc j')
        with j new(7) show ?thesis by simp
      qed
    qed
    have "\<forall>l\<in>set (butlast (?l # new)). l < s" using new(2,6) False by simp
    with new cons show ?thesis
      by (intro exI [of _ "?l # new"]) simp
  qed
qed

lemma sum_sq_zero: "\<forall>x\<in>set xs. x = 0 \<Longrightarrow> sum_list (map (\<lambda>x. x\<^sup>2) xs) = (0::real)"
  by (induction xs) auto

lemma integration_length_start: "get_integration_length m i i = 0"
proof -
  have "\<forall>x\<in>set (vdiv (vsub i i) m). x = 0"
    by (auto simp: vdiv_def vsub_def set_zip)
  then show ?thesis
    by (simp add: get_integration_length_def norm_v_def sum_sq_zero)
qed

lemma euler_loop_increase:
  assumes shapes: "length i = n" "length m = n" "length g = n" "length H = n"
    and mu: "0 < \<mu>" "\<forall>x\<in>set m. \<mu> \<le> x"
  shows "length c = n \<Longrightarrow> length gr = n \<Longrightarrow>
         \<exists>new. lengths_of (euler_loop m i s esl g H k c gr ls) = ls @ new \<and>
           (new \<noteq> [] \<longrightarrow> hd new = get_integration_length m i c) \<and>
           (\<forall>j. Suc j < length new \<longrightarrow> new ! Suc j \<le> new ! j + \<bar>esl\<bar> / \<mu>)"
proof (induction k arbitrary: c gr ls)
  case 0
  show ?case by (intro exI [of _ "[]"]) simp
next
  case (Suc k)
  let ?l = "get_integration_length m i c"
  let ?c2 = "vadd c (euler_displacement esl gr)"
  show ?case
  proof (cases "s \<le> ?l \<or> norm_v gr = 0")
    case True
    then have "lengths_of (euler_loop m i s esl g H (Suc k) c gr ls) = ls @ [?l]" by auto
    then show ?thesis by (intro exI [of _ "[?l]"]) simp
  next
    case False
    then have g0: "norm_v gr \<noteq> 0" by simp
    from False have unf: "euler_loop m i s esl g H (Suc k) c gr ls =
        euler_loop m i s esl g H k ?c2 (taylor_gradient g H (vsub ?c2 i)) (ls @ [?l])"
      by simp
    have l2: "length ?c2 = n" using Suc.prems by simp
    have l3: "length (taylor_gradient g H (vsub ?c2 i)) = n" using shapes by simp
    from Suc.IH [OF l2 l3, of "ls @ [?l]"] obtain new where
      new: "lengths_of (euler_loop m i s esl g H k ?c2 (taylor_gradient g H (vsub ?c2 i))
              (ls @ [?l])) = (ls @ [?l]) @ new"
        "new \<noteq> [] \<longrightarrow> hd new = get_integration_length m i ?c2"
        "\<forall>j. Suc j < length new \<longrightarrow> new ! Suc j \<le> new ! j + \<bar>esl\<bar> / \<mu>"
      by blast
    have "get_integration_length m i ?c2 \<le> ?l + norm_v (euler_displacement esl gr) / \<mu>"
      using Suc.prems shapes mu by (intro integration_length_step [where n = n]) simp_all
    then have first: "new \<noteq> [] \<longrightarrow> hd new \<le> ?l + \<bar>esl\<bar> / \<mu>"
      using new(2) norm_euler_displacement [OF g0, of esl] by simp
    have cons: "\<forall>j. Suc j < length (?l # new) \<longrightarrow> (?l # new) ! Suc j \<le> (?l # new) ! j + \<bar>esl\<bar> / \<mu>"
    proof (intro allI impI)
      fix j assume j: "Suc j < length (?l # new)"
      show "(?l # new) ! Suc j \<le> (?l # new) ! j + \<bar>esl\<bar> / \<mu>"
      proof (cases j)
        case 0
        with j have "new \<noteq> []" by auto
        with first 0 show ?thesis by (simp add: hd_conv_nth)
      next
        case (Suc j')
        with j new(3) show ?thesis by simp
      qed
    qed
    from new(1) unf have "lengths_of (euler_loop m i s esl g H (Suc k) c gr ls) = ls @ (?l # new)"
      by simp
    with cons show ?thesis by (intro exI [of _ "?l # new"]) simp
  qed
qed

lemma predictor_lengths_increase:
  assumes "length (self_mw_coords self) = n" "length (geom_m_sqrt env) = n"
    "length (calc_mw_gradient env (self_mw_coords self)) = n" "length (self_mw_H self) = n"
    "0 < \<mu>" "\<forall>x\<in>set (geom_m_sqrt env). \<mu> \<le> x"
    and "Suc j < length (lengths_of (predictor env self))"
  shows "lengths_of (predictor env self) ! Suc j \<le> lengths_of (predictor env self) ! j +
      \<bar>euler_step_length env self (calc_mw_gradient env (self_mw_coords self))\<bar> / \<mu>"
proof -
  from euler_loop_increase [OF assms(1,2,3,4,5,6) assms(1,3),
      of "self_step_length self"
         "euler_step_length env self (calc_mw_gradient env (self_mw_coords self))"
         "nat (self_max_pred_steps self)" "[]"]
  obtain new where "lengths_of (predictor env self) = new"
    "\<forall>j. Suc j < length new \<longrightarrow> new ! Suc j \<le> new ! j +
        \<bar>euler_step_length env self (calc_mw_gradient env (self_mw_coords self))\<bar> / \<mu>"
    by (auto simp: predictor_def Let_def)
  with assms(7) show ?thesis by simp
qed

lemma predictor_reached_lengths:
  assumes "predictor env self = ReachedTarget euler_mw_coords euler_mw_grad lengths"
    and "length (self_mw_coords self) = n" and "length (geom_m_sqrt env) = n"
    and "length (calc_mw_gradient env (self_mw_coords self)) = n"
    and "length (self_mw_H self) = n"
    and "0 < \<mu>" and "\<forall>x\<in>set (geom_m_sqrt env). \<mu> \<le> x"
  shows "lengths \<noteq> [] \<and> hd lengths = 0 \<and>
         last lengths =
           get_integration_length (geom_m_sqrt env) (self_mw_coords self) euler_mw_coords \<and>
         self_step_length self \<le> last lengths \<and>
         (\<forall>l\<in>set (butlast lengths). l < self_step_length self) \<and>
         (\<forall>j. Suc j < length lengths \<longrightarrow>
            lengths ! Suc j \<le> lengths ! j +
              \<bar>euler_step_length env self (calc_mw_gradient env (self_mw_coords self))\<bar> / \<mu>) \<and>
         (2 \<le> length lengths \<longrightarrow>
            last lengths < self_step_length self +
              \<bar>euler_step_length env self (calc_mw_gradient env (self_mw_coords self))\<bar> / \<mu>)"
proof -
  let ?esl = "euler_step_length env self (calc_mw_gradient env (self_mw_coords self))"
  from euler_loop_reached [OF assms(2,3,4,5,6,7) assms(1) [unfolded predictor_def Let_def] assms(2,4)]
  have ne: "lengths \<noteq> []"
    and hd: "hd lengths = get_integration_length (geom_m_sqrt env) (self_mw_coords self) (self_mw_coords self)"
    and last: "last lengths =
           get_integration_length (geom_m_sqrt env) (self_mw_coords self) euler_mw_coords"
    and ge: "self_step_length self \<le> last lengths"
    and lt: "\<forall>l\<in>set (butlast lengths). l < self_step_length self"
    and inc: "\<forall>j. Suc j < length lengths \<longrightarrow> lengths ! Suc j \<le> lengths ! j + \<bar>?esl\<bar> / \<mu>"
    by auto
  have "2 \<le> length lengths \<longrightarrow> last lengths < self_step_length self + \<bar>?esl\<bar> / \<mu>"
  proof
    assume two: "2 \<le> length lengths"
    then obtain j where j: "length lengths = Suc (Suc j)"
      by (metis Suc_le_D numeral_2_eq_2 Suc_le_mono)
    then have "last lengths = lengths ! Suc j" using ne by (simp add: last_conv_nth)
    moreover have "lengths ! Suc j \<le> lengths ! j + \<bar>?esl\<bar> / \<mu>" using inc j by simp
    moreover have "lengths ! j \<in> set (butlast lengths)"
      using j by (metis length_butlast diff_Suc_1 lessI nth_butlast nth_mem)
    then have "lengths ! j < self_step_length self" using lt by simp
    ultimately show "last lengths < self_step_length self + \<bar>?esl\<bar> / \<mu>" by linarith
  qed
  with ne hd last ge lt inc show ?thesis by (simp add: integration_length_start)
qed

text \<open>
  On the toy surface the Euler walk oscillates about the minimum at \<open>- 1/4\<close>: whatever the
  budget, from three steps on, it never gets as far as the step length.
\<close>

lemma toy_loop_bounded:
  assumes e: "0 < e" "e < 3 / 4"
  shows "- 1 / 4 - e \<le> x \<Longrightarrow> x \<le> max 0 (e - 1 / 4) \<Longrightarrow>
         euler_loop [1] [0] 1 e [1] [[4]] k [x] [1 + 4 * x] ls \<noteq> ReachedTarget c g l"
proof (induction k arbitrary: x ls)
  case 0
  then show ?case by simp
next
  case (Suc k)
  have len: "get_integration_length [1] [0] [x] = \<bar>x\<bar>" by (simp add: vec_eval)
  from Suc.prems e have small: "\<not> 1 \<le> \<bar>x\<bar>" by (auto simp: max_def split: if_splits)
  show ?case
  proof (cases "1 + 4 * x = 0")
    case True
    with small len show ?thesis by simp
  next
    case False
    define x' where "x' = (if 0 < 1 + 4 * x then x - e else x + e)"
    have new: "vadd [x] (euler_displacement e [1 + 4 * x]) = [x']"
      using False by (auto simp: x'_def vec_eval euler_displacement_def field_simps)
    have grad: "taylor_gradient [1] [[4]] (vsub [x'] [0]) = [1 + 4 * x']"
      by (simp add: taylor_gradient_def mat_vec_def dot_def vec_eval)
    have b1: "- 1 / 4 - e \<le> x'" using Suc.prems False e by (auto simp: x'_def)
    have b2: "x' \<le> max 0 (e - 1 / 4)" using Suc.prems False e by (auto simp: x'_def max_def)
    from Suc.IH [OF b1 b2] small len False new grad show ?thesis by simp
  qed
qed

lemma toy_never_reaches_target:
  assumes "3 \<le> N"
  shows "predictor toy_env (toy_self\<lparr>self_max_pred_steps := int N\<rparr>) \<noteq> ReachedTarget c g l"
proof -
  have N: "0 < real N" "real N \<ge> 3" using assms by simp_all
  define e where "e = 1 / (real N / 2)"
  have e: "0 < e" "e < 3 / 4" using N by (simp_all add: e_def field_simps)
  from e(1) have b: "- 1 / 4 - e \<le> 0" "(0::real) \<le> max 0 (e - 1 / 4)" by simp_all
  have "euler_loop [1] [0] 1 e [1] [[4]] N [0] [1 + 4 * 0] [] \<noteq> ReachedTarget c g l"
    by (rule toy_loop_bounded [OF e b])
  then show ?thesis
    by (simp add: predictor_def Let_def toy_env_def toy_self_def euler_step_length_def
        conv_fact_def e_def)
qed

subsection \<open>A run that does not converge\<close>

text \<open>
  In one dimension with the constant downhill field the walk is straight, so its end
  point is known without walking it: it stops at the first multiple of the step size whose
  un-mass-weighted length is within half a step of the target.
\<close>

lemma straight_walk_aux:
  assumes c: "0 < c" and m: "0 < m"
    and before: "c / 2 \<le> s - real (n - 1) * c / m" and n: "0 < n"
    and at: "\<bar>s - real n * c / m\<bar> < c / 2"
  shows "j \<le> n \<Longrightarrow> (if j = 0 then ks = [] else ks \<noteq> [] \<and> last ks = [real (j - 1) * c]) \<Longrightarrow>
         corrector_walk const_gradient [m] [0] s c ks [real j * c] (real j * c / m) =
           Some (Reached [real n * c] (ks @ straight_path c j n))"
proof (induction "n - j" arbitrary: j ks)
  case 0
  then have "j = n" by simp
  with at show ?case
    by (subst corrector_walk.simps) (simp add: straight_path_def)
next
  case (Suc d)
  then have lt: "j < n" by simp
  then have "real j \<le> real (n - 1)" by simp
  then have "real j * c / m \<le> real (n - 1) * c / m"
    using c m by (simp add: divide_right_mono mult_right_mono)
  with before have far: "\<not> \<bar>s - real j * c / m\<bar> < 0.5 * c" by linarith
  have g: "norm_v (const_gradient [real j * c]) \<noteq> 0" by (simp add: const_gradient_def)
  have new: "vadd [real j * c] (corr_displacement c (const_gradient [real j * c])) =
      [real (Suc j) * c]"
    by (simp add: const_gradient_def vec_eval algebra_simps)
  have len: "get_integration_length [m] [0] [real (Suc j) * c] = real (Suc j) * c / m"
    using c m by (simp add: vec_eval)
  have rec: "corrector_walk const_gradient [m] [0] s c (ks @ [[real j * c]]) [real (Suc j) * c]
      (real (Suc j) * c / m) =
      Some (Reached [real n * c] ((ks @ [[real j * c]]) @ straight_path c (Suc j) n))"
  proof (rule Suc.hyps(1))
    show "d = n - Suc j" using Suc.hyps(2) by simp
    show "Suc j \<le> n" using lt by simp
    show "if Suc j = 0 then ks @ [[real j * c]] = []
          else ks @ [[real j * c]] \<noteq> [] \<and> last (ks @ [[real j * c]]) = [real (Suc j - 1) * c]"
      by simp
  qed
  have path: "(ks @ [[real j * c]]) @ straight_path c (Suc j) n = ks @ straight_path c j n"
    using lt by (simp add: straight_path_def upt_conv_Cons)
  have osc: "\<And>p. index_m2 (ks @ [[real j * c]]) = Some p \<Longrightarrow>
      \<not> norm_v (vsub [real (Suc j) * c] p) \<le> c"
  proof -
    fix p assume "index_m2 (ks @ [[real j * c]]) = Some p"
    then have "ks \<noteq> []" "p = last ks" by (auto simp: index_m2_snoc split: if_splits)
    with Suc.prems(2) have j: "0 < j" and p: "p = [real (j - 1) * c]" by (auto split: if_splits)
    from j have "real (Suc j) * c - real (j - 1) * c = 2 * c"
      by (simp add: algebra_simps of_nat_diff)
    with p c show "\<not> norm_v (vsub [real (Suc j) * c] p) \<le> c" by (simp add: vsub_def)
  qed
  have len': "get_integration_length [m] [0] [(1 + real j) * c] = (1 + real j) * c / m"
    using len by simp
  have rec': "corrector_walk const_gradient [m] [0] s c (ks @ [[real j * c]]) [(1 + real j) * c]
      ((1 + real j) * c / m) = Some (Reached [real n * c] (ks @ straight_path c j n))"
    using rec path by simp
  have new': "vadd [real j * c] (corr_displacement c (const_gradient [real j * c])) =
      [(1 + real j) * c]"
    using new by simp
  have osc': "\<And>p. index_m2 (ks @ [[real j * c]]) = Some p \<Longrightarrow>
      \<not> norm_v (vsub [(1 + real j) * c] p) \<le> c"
    using osc by simp
  show ?case
    apply (subst corrector_walk.simps)
    using far g osc'
    apply (simp add: new' len' rec' split: option.splits)
    done
qed

lemma straight_walk:
  assumes "0 < c" "0 < m" "c / 2 \<le> s - real (n - 1) * c / m" "0 < n"
    "\<bar>s - real n * c / m\<bar> < c / 2"
  shows "corrector_walk const_gradient [m] [0] s c [] [0] 0 =
           Some (Reached [real n * c] (straight_path c 0 n))"
  using straight_walk_aux [OF assms, of 0 "[]"] by simp

lemma raising_level:
  assumes "c / 2 \<le> 100000 - real (level_steps k - 1) * c / (4 / 3)"
    and "\<bar>100000 - real (level_steps k) * c / (4 / 3)\<bar> < c / 2"
    and "0 < c" and "0 < level_steps k"
    and "c = corr_step_length 100000 k"
  shows "corrector_walk const_gradient [4 / 3] [0] 100000 (corr_step_length 100000 k) [] [0] 0 =
           Some (Reached [real (level_steps k) * c] (straight_path c 0 (level_steps k)))"
  using straight_walk [of c "4 / 3" 100000 "level_steps k"] assms by simp

lemma less_15_cases:
  "k < 15 \<Longrightarrow> k \<in> {0, 1, 2, 3, 4, 5, 6, 7, 8, 9, 10, 11, 12, 13, 14::nat}"
  by simp arith

lemma raising_walks:
  assumes "k < 15"
  shows "corrector_walk const_gradient [4 / 3] [0] 100000 (corr_step_length 100000 k) [] [0] 0 =
     Some (Reached [real (level_steps k) * corr_step_length 100000 k]
        (straight_path (corr_step_length 100000 k) 0 (level_steps k)))"
proof (rule raising_level [OF _ _ _ _ refl])
  note k = less_15_cases [OF assms]
  show "corr_step_length 100000 k / 2 \<le>
      100000 - real (level_steps k - 1) * corr_step_length 100000 k / (4 / 3)"
    using k by (auto simp: corr_step_length_def points_def level_steps_def)
  show "\<bar>100000 - real (level_steps k) * corr_step_length 100000 k / (4 / 3)\<bar> <
      corr_step_length 100000 k / 2"
    using k by (auto simp: corr_step_length_def points_def level_steps_def)
  show "0 < corr_step_length 100000 k"
    using points_gt_one [of k] by (simp add: corr_step_length_def)
  show "0 < level_steps k"
    using k by (auto simp: points_def level_steps_def)
qed

lemmas raising_walks_num =
  raising_walks [of 0, simplified corr_step_length_def points_def level_steps_def, simplified] 
  raising_walks [of 1, simplified corr_step_length_def points_def level_steps_def, simplified] 
  raising_walks [of 2, simplified corr_step_length_def points_def level_steps_def, simplified] 
  raising_walks [of 3, simplified corr_step_length_def points_def level_steps_def, simplified] 
  raising_walks [of 4, simplified corr_step_length_def points_def level_steps_def, simplified] 
  raising_walks [of 5, simplified corr_step_length_def points_def level_steps_def, simplified] 
  raising_walks [of 6, simplified corr_step_length_def points_def level_steps_def, simplified] 
  raising_walks [of 7, simplified corr_step_length_def points_def level_steps_def, simplified] 
  raising_walks [of 8, simplified corr_step_length_def points_def level_steps_def, simplified] 
  raising_walks [of 9, simplified corr_step_length_def points_def level_steps_def, simplified] 
  raising_walks [of 10, simplified corr_step_length_def points_def level_steps_def, simplified] 
  raising_walks [of 11, simplified corr_step_length_def points_def level_steps_def, simplified] 
  raising_walks [of 12, simplified corr_step_length_def points_def level_steps_def, simplified] 
  raising_walks [of 13, simplified corr_step_length_def points_def level_steps_def, simplified] 
  raising_walks [of 14, simplified corr_step_length_def points_def level_steps_def, simplified]

lemma raising_run:
  "\<exists>R. corrector_run const_gradient [4 / 3] [0] 100000 = Some (Raised RichardsonDidNotConverge, R)"
  by (simp add: corrector_run_def corrector_levels.simps raising_walks_num
      corr_step_length_def points_def vsub_def smult_def sdiv_def)

subsection \<open>The convergence test\<close>

lemma convergence_test_rms_diff:
  assumes "corrector_run dwi_gradient m_sqrt init_mw_coords step_length = Some (out, richardson)"
  shows "(\<forall>k v. out = RichardsonReturn k v \<longrightarrow>
            1 \<le> k \<and> k \<le> 14 \<and> richardson (k, k) = Some v \<and>
            (\<exists>w. richardson (k, k - 1) = Some w \<and> rms_diff v w \<le> 0.00001) \<and>
            (\<forall>k' j. k < k' \<longrightarrow> (k', j) \<notin> dom richardson) \<and>
            unconverged richardson k \<and>
            corrector_step dwi_gradient m_sqrt init_mw_coords step_length = Some (Inr v)) \<and>
         (\<forall>k. 1 \<le> k \<and> (k, k) \<in> dom richardson \<and>
              rms_diff (the (richardson (k, k))) (the (richardson (k, k - 1))) \<le> 0.00001 \<longrightarrow>
            out = RichardsonReturn k (the (richardson (k, k))))"
proof -
  from run_post [OF assms] obtain K where K: "K \<le> 15"
    and inv: "table_inv dwi_gradient m_sqrt init_mw_coords step_length K richardson"
    and out: "case out of
           Raised e \<Rightarrow> e = RichardsonDidNotConverge \<and> K = 15 \<and> unconverged richardson 15
         | RichardsonReturn k v \<Rightarrow>
             K = Suc k \<and> 1 \<le> k \<and> richardson (k, k) = Some v \<and>
             rms_diff v (the (richardson (k, k - 1))) \<le> 0.00001 \<and> unconverged richardson k
         | OscillationReturn p \<Rightarrow>
             K < 15 \<and> unconverged richardson K \<and>
             (\<exists>path. corrector_walk dwi_gradient m_sqrt init_mw_coords step_length
                 (corr_step_length step_length K) [] init_mw_coords 0 = Some (Oscillation p path))"
    unfolding corrector_post_def by blast
  from inv have dom: "\<And>a b. (a, b) \<in> dom richardson \<longleftrightarrow> a < K \<and> b \<le> a"
    unfolding table_inv_def by blast
  have step: "corrector_step dwi_gradient m_sqrt init_mw_coords step_length = Some (returned_coords out)"
    using assms by (simp add: corrector_step_def)
  have 1: "\<forall>k v. out = RichardsonReturn k v \<longrightarrow>
            1 \<le> k \<and> k \<le> 14 \<and> richardson (k, k) = Some v \<and>
            (\<exists>w. richardson (k, k - 1) = Some w \<and> rms_diff v w \<le> 0.00001) \<and>
            (\<forall>k' j. k < k' \<longrightarrow> (k', j) \<notin> dom richardson) \<and>
            unconverged richardson k \<and>
            corrector_step dwi_gradient m_sqrt init_mw_coords step_length = Some (Inr v)"
  proof (intro allI impI)
    fix k v assume o: "out = RichardsonReturn k v"
    with out have Kk: "K = Suc k" and k1: "1 \<le> k" and v: "richardson (k, k) = Some v"
      and tol: "rms_diff v (the (richardson (k, k - 1))) \<le> 0.00001"
      and unc: "unconverged richardson k" by simp_all
    from dom [of k "k - 1"] Kk obtain w where w: "richardson (k, k - 1) = Some w" by auto
    have later: "\<forall>k' j. k < k' \<longrightarrow> (k', j) \<notin> dom richardson" using dom Kk by auto
    from Kk K k1 v w tol later step o unc
    show "1 \<le> k \<and> k \<le> 14 \<and> richardson (k, k) = Some v \<and>
            (\<exists>w. richardson (k, k - 1) = Some w \<and> rms_diff v w \<le> 0.00001) \<and>
            (\<forall>k' j. k < k' \<longrightarrow> (k', j) \<notin> dom richardson) \<and>
            unconverged richardson k \<and>
            corrector_step dwi_gradient m_sqrt init_mw_coords step_length = Some (Inr v)"
      by simp
  qed
  have 2: "\<forall>k. 1 \<le> k \<and> (k, k) \<in> dom richardson \<and>
              rms_diff (the (richardson (k, k))) (the (richardson (k, k - 1))) \<le> 0.00001 \<longrightarrow>
            out = RichardsonReturn k (the (richardson (k, k)))"
  proof (intro allI impI)
    fix k assume h: "1 \<le> k \<and> (k, k) \<in> dom richardson \<and>
              rms_diff (the (richardson (k, k))) (the (richardson (k, k - 1))) \<le> 0.00001"
    then have kK: "k < K" using dom by simp
    show "out = RichardsonReturn k (the (richardson (k, k)))"
    proof (cases out)
      case (Raised e)
      with out have "unconverged richardson 15" "K = 15" by simp_all
      with h kK show ?thesis by (auto simp: unconverged_def)
    next
      case (OscillationReturn p)
      with out have "unconverged richardson K" by simp
      with h kK show ?thesis by (auto simp: unconverged_def)
    next
      case (RichardsonReturn k' v)
      with out have Kk: "K = Suc k'" and v: "richardson (k', k') = Some v"
        and unc: "unconverged richardson k'" by simp_all
      have "\<not> k < k'" using unc h by (auto simp: unconverged_def)
      with kK Kk have "k = k'" by simp
      with RichardsonReturn v show ?thesis by simp
    qed
  qed
  from 1 2 show ?thesis by blast
qed

text \<open>
  With the mass factor \<open>3/2\<close> and a step length of 1, the levels 0 to 3 take 28, 58, 118
  and 238 micro-steps; the extrapolated values of levels 1 and 2 differ by more than the
  tolerance, those of level 3 by less.
\<close>

lemmas slow_walks =
  straight_walk [of "1 / 19" "3 / 2" 1 28, simplified]
  straight_walk [of "1 / 39" "3 / 2" 1 58, simplified]
  straight_walk [of "1 / 79" "3 / 2" 1 118, simplified]
  straight_walk [of "1 / 159" "3 / 2" 1 238, simplified]

lemma slow_run:
  "\<exists>R. corrector_run const_gradient [3 / 2] [0] 1 =
          Some (RichardsonReturn 3 [13961552 / 9307701], R) \<and>
       R (3, 2) = Some [734818 / 489879] \<and>
       R (2, 2) = Some [87808 / 58539] \<and> R (2, 1) = Some [4622 / 3081] \<and>
       R (1, 1) = Some [1112 / 741] \<and> R (1, 0) = Some [58 / 39] \<and>
       R (0, 0) = Some [28 / 19]"
  by (simp add: corrector_run_def corrector_levels.simps slow_walks
      corr_step_length_def points_def vsub_def smult_def sdiv_def)

subsection \<open>A walk that never reaches its target\<close>





subsection \<open>The spacing of a level's points in exact arithmetic\<close>

text \<open>
  Coordinates are real numbers in this development. Over the reals, for a step length
  that is not negative and a DWI gradient of the shape of the coordinates, a micro-step
  taken where the gradient is not zero displaces the point by a vector of norm
  \<open>corr_step_length\<close>, and consecutive points of \<^verbatim>\<open>k_coords\<close> are that far apart. The
  program computes in double precision, where \<^verbatim>\<open>gradient / np.linalg.norm(gradient)\<close> has
  norm 1 only up to rounding; the rounding of \<^verbatim>\<open>numpy\<close> is not part of the model, so the
  equalities below say nothing about the last bits of the computed norms.
\<close>

lemma micro_step_norm_real:
  assumes "0 \<le> step_length"
    and "\<forall>x. length x = length init_mw_coords \<longrightarrow> length (dwi_gradient x) = length init_mw_coords"
  shows "(\<forall>cur_coords. length cur_coords = length init_mw_coords \<and>
              norm_v (dwi_gradient cur_coords) \<noteq> 0 \<longrightarrow>
            norm_v (corr_displacement (corr_step_length step_length k) (dwi_gradient cur_coords)) =
              corr_step_length step_length k \<and>
            norm_v (vsub (vadd cur_coords
                (corr_displacement (corr_step_length step_length k) (dwi_gradient cur_coords)))
                cur_coords) = corr_step_length step_length k) \<and>
         (\<forall>r. corrector_walk dwi_gradient m_sqrt init_mw_coords step_length
                (corr_step_length step_length k) [] init_mw_coords 0 = Some r \<longrightarrow>
            (\<forall>n. Suc n < length (k_coords_of r) \<longrightarrow>
               norm_v (vsub (k_coords_of r ! Suc n) (k_coords_of r ! n)) =
                 corr_step_length step_length k))"
proof -
  let ?c = "corr_step_length step_length k"
  have c: "0 \<le> ?c" by (rule corr_step_length_nonneg [OF assms(1)])
  have 1: "\<forall>cur_coords. length cur_coords = length init_mw_coords \<and>
              norm_v (dwi_gradient cur_coords) \<noteq> 0 \<longrightarrow>
            norm_v (corr_displacement ?c (dwi_gradient cur_coords)) = ?c \<and>
            norm_v (vsub (vadd cur_coords (corr_displacement ?c (dwi_gradient cur_coords)))
                cur_coords) = ?c"
  proof (intro allI impI)
    fix cur assume h: "length cur = length init_mw_coords \<and> norm_v (dwi_gradient cur) \<noteq> 0"
    then have n: "norm_v (corr_displacement ?c (dwi_gradient cur)) = ?c"
      using norm_corr_displacement [of "dwi_gradient cur" ?c] c by simp
    from h assms(2) have "length (corr_displacement ?c (dwi_gradient cur)) = length cur" by simp
    from vsub_vadd_cancel [OF this] n
    show "norm_v (corr_displacement ?c (dwi_gradient cur)) = ?c \<and>
          norm_v (vsub (vadd cur (corr_displacement ?c (dwi_gradient cur))) cur) = ?c"
      by simp
  qed
  have 2: "\<forall>r. corrector_walk dwi_gradient m_sqrt init_mw_coords step_length ?c [] init_mw_coords 0 =
              Some r \<longrightarrow>
            (\<forall>n. Suc n < length (k_coords_of r) \<longrightarrow>
               norm_v (vsub (k_coords_of r ! Suc n) (k_coords_of r ! n)) = ?c)"
  proof (intro allI impI)
    fix r n
    assume run: "corrector_walk dwi_gradient m_sqrt init_mw_coords step_length ?c []
        init_mw_coords 0 = Some r"
      and n: "Suc n < length (k_coords_of r)"
    have "spaced ?c ([] @ [init_mw_coords])" by (simp add: spaced_def)
    from walk_spaced [OF run assms(2) c _ this] have "spaced ?c (k_coords_of r)" by simp
    with n show "norm_v (vsub (k_coords_of r ! Suc n) (k_coords_of r ! n)) = ?c"
      by (simp add: spaced_def)
  qed
  from 1 2 show ?thesis by blast
qed
section \<open>The claims\<close>




text \<open>
  C2. The convergence test is performed from level 1 on, and the quantity tested is
  \<^verbatim>\<open>sqrt(mean((R[k, k] - R[k, k-1])**2))\<close>. When the corrector returns by convergence from
  level \<open>k\<close>, then \<open>k \<ge> 1\<close>, the value returned is \<open>R[k, k]\<close>, that quantity is at most
  \<open>1e-5\<close> at level \<open>k\<close> and above \<open>1e-5\<close> at every earlier level from 1 on, and no later
  level has been walked. Conversely, a level \<open>k \<ge> 1\<close> of the table at which the quantity is
  at most \<open>1e-5\<close> is the level the corrector returned from.
\<close>

theorem corrector_convergence_test:
  assumes "corrector_run dwi_gradient m_sqrt init_mw_coords step_length = Some (out, richardson)"
  shows "(\<forall>k v. out = RichardsonReturn k v \<longrightarrow>
            1 \<le> k \<and> k \<le> 14 \<and> richardson (k, k) = Some v \<and>
            (\<exists>w. richardson (k, k - 1) = Some w \<and>
                 sqrt (sum_list (map (\<lambda>x. x\<^sup>2) (vsub v w)) / real (length (vsub v w))) \<le> 0.00001) \<and>
            (\<forall>a. 1 \<le> a \<and> a < k \<longrightarrow>
                 0.00001 < sqrt (sum_list (map (\<lambda>x. x\<^sup>2) (vsub (the (richardson (a, a))) (the (richardson (a, a - 1))))) / real (length (vsub (the (richardson (a, a))) (the (richardson (a, a - 1))))))) \<and>
            (\<forall>k' j. k < k' \<longrightarrow> (k', j) \<notin> dom richardson) \<and>
            corrector_step dwi_gradient m_sqrt init_mw_coords step_length = Some (Inr v)) \<and>
         (\<forall>k. 1 \<le> k \<and> (k, k) \<in> dom richardson \<and>
              sqrt (sum_list (map (\<lambda>x. x\<^sup>2) (vsub (the (richardson (k, k))) (the (richardson (k, k - 1))))) / real (length (vsub (the (richardson (k, k))) (the (richardson (k, k - 1)))))) \<le> 0.00001 \<longrightarrow>
            out = RichardsonReturn k (the (richardson (k, k))))"
  using convergence_test_rms_diff [OF assms]
  unfolding unconverged_def rms_diff_def by blast

text \<open>
  The run with the mass factor \<open>3/2\<close> returns from level 3: the tested quantity is positive
  and below the tolerance there, and above the tolerance at levels 1 and 2.
\<close>

theorem corrector_convergence_test_witness:
  "corrector_step const_gradient [3 / 2] [0] 1 = Some (Inr [13961552 / 9307701]) \<and>
   (\<exists>R. corrector_run const_gradient [3 / 2] [0] 1 =
           Some (RichardsonReturn 3 [13961552 / 9307701], R) \<and>
        R (3, 3) = Some [13961552 / 9307701] \<and> R (3, 2) = Some [734818 / 489879] \<and>
        sqrt (sum_list (map (\<lambda>x. x\<^sup>2) (vsub [13961552 / 9307701] [734818 / 489879])) / real (length (vsub [13961552 / 9307701] [734818 / 489879]))) \<le> 0.00001 \<and>
        0 < sqrt (sum_list (map (\<lambda>x. x\<^sup>2) (vsub [13961552 / 9307701] [734818 / 489879])) / real (length (vsub [13961552 / 9307701] [734818 / 489879]))) \<and>
        0.00001 < sqrt (sum_list (map (\<lambda>x. x\<^sup>2) (vsub (the (R (2, 2))) (the (R (2, 1))))) / real (length (vsub (the (R (2, 2))) (the (R (2, 1)))))) \<and>
        0.00001 < sqrt (sum_list (map (\<lambda>x. x\<^sup>2) (vsub (the (R (1, 1))) (the (R (1, 0))))) / real (length (vsub (the (R (1, 1))) (the (R (1, 0)))))) \<and>
        (4, 0) \<notin> dom R)"
proof -
  from slow_run obtain R where
    run: "corrector_run const_gradient [3 / 2] [0] 1 =
            Some (RichardsonReturn 3 [13961552 / 9307701], R)"
    and w: "R (3, 2) = Some [734818 / 489879]" by blast
  from corrector_convergence_test [OF run]
  have post: "R (3, 3) = Some [13961552 / 9307701] \<and>
      (\<exists>w. R (3, 3 - 1) = Some w \<and>
           sqrt (sum_list (map (\<lambda>x. x\<^sup>2) (vsub [13961552 / 9307701] w)) / real (length (vsub [13961552 / 9307701] w))) \<le> 0.00001) \<and>
      (\<forall>a. 1 \<le> a \<and> a < 3 \<longrightarrow>
           0.00001 < sqrt (sum_list (map (\<lambda>x. x\<^sup>2) (vsub (the (R (a, a))) (the (R (a, a - 1))))) / real (length (vsub (the (R (a, a))) (the (R (a, a - 1))))))) \<and>
      (\<forall>k' j. 3 < k' \<longrightarrow> (k', j) \<notin> dom R) \<and>
      corrector_step const_gradient [3 / 2] [0] 1 = Some (Inr [13961552 / 9307701])"
    by blast
  from post w have tol:
    "sqrt (sum_list (map (\<lambda>x. x\<^sup>2) (vsub [13961552 / 9307701] [734818 / 489879])) / real (length (vsub [13961552 / 9307701] [734818 / 489879]))) \<le> 0.00001"
    by simp
  from post have l2: "0.00001 < sqrt (sum_list (map (\<lambda>x. x\<^sup>2) (vsub (the (R (2, 2))) (the (R (2, 2 - 1))))) / real (length (vsub (the (R (2, 2))) (the (R (2, 2 - 1))))))"
    by (elim conjE allE [of _ "2::nat"]) simp
  from post have l1: "0.00001 < sqrt (sum_list (map (\<lambda>x. x\<^sup>2) (vsub (the (R (1, 1))) (the (R (1, 1 - 1))))) / real (length (vsub (the (R (1, 1))) (the (R (1, 1 - 1))))))"
    by (elim conjE allE [of _ "1::nat"]) simp
  from post have later: "(4, 0) \<notin> dom R" by simp
  have pos: "0 < sqrt (sum_list (map (\<lambda>x. x\<^sup>2) (vsub [13961552 / 9307701] [734818 / 489879])) / real (length (vsub [13961552 / 9307701] [734818 / 489879])))"
    by (simp add: vsub_def)
  from post run w tol l2 l1 later pos show ?thesis by simp
qed

text \<open>
  C3. The corrector raises exactly when all fifteen levels have been walked and no level
  from 1 to 14 met the tolerance; the exception is then the one of line 261. Every other
  invocation that comes back returns a point.
\<close>

theorem corrector_raises_on_exhaustion_only:
  assumes "corrector_run dwi_gradient m_sqrt init_mw_coords step_length = Some (out, richardson)"
  shows "(out = Raised RichardsonDidNotConverge \<longleftrightarrow>
            (14, 14) \<in> dom richardson \<and>
            (\<forall>k. 1 \<le> k \<and> k \<le> 14 \<longrightarrow>
               0.00001 < rms_diff (the (richardson (k, k))) (the (richardson (k, k - 1))))) \<and>
         (out = Raised RichardsonDidNotConverge \<longrightarrow>
            corrector_step dwi_gradient m_sqrt init_mw_coords step_length =
              Some (Inl RichardsonDidNotConverge)) \<and>
         (out \<noteq> Raised RichardsonDidNotConverge \<longrightarrow>
            (\<exists>v. corrector_step dwi_gradient m_sqrt init_mw_coords step_length = Some (Inr v)))"
proof -
  from run_post [OF assms] obtain K where K: "K \<le> 15"
    and inv: "table_inv dwi_gradient m_sqrt init_mw_coords step_length K richardson"
    and out: "case out of
           Raised e \<Rightarrow> e = RichardsonDidNotConverge \<and> K = 15 \<and> unconverged richardson 15
         | RichardsonReturn k v \<Rightarrow>
             K = Suc k \<and> 1 \<le> k \<and> richardson (k, k) = Some v \<and>
             rms_diff v (the (richardson (k, k - 1))) \<le> 0.00001 \<and> unconverged richardson k
         | OscillationReturn p \<Rightarrow>
             K < 15 \<and> unconverged richardson K \<and>
             (\<exists>path. corrector_walk dwi_gradient m_sqrt init_mw_coords step_length
                 (corr_step_length step_length K) [] init_mw_coords 0 = Some (Oscillation p path))"
    unfolding corrector_post_def by blast
  from inv have dom: "\<And>a b. (a, b) \<in> dom richardson \<longleftrightarrow> a < K \<and> b \<le> a"
    unfolding table_inv_def by blast
  have step: "corrector_step dwi_gradient m_sqrt init_mw_coords step_length = Some (returned_coords out)"
    using assms by (simp add: corrector_step_def)
  let ?exhausted = "(14, 14) \<in> dom richardson \<and>
            (\<forall>k. 1 \<le> k \<and> k \<le> 14 \<longrightarrow>
               0.00001 < rms_diff (the (richardson (k, k))) (the (richardson (k, k - 1))))"
  have 1: "out = Raised RichardsonDidNotConverge \<longleftrightarrow> ?exhausted"
  proof (cases out)
    case (Raised e)
    with out have e: "e = RichardsonDidNotConverge" and K15: "K = 15"
      and unc: "unconverged richardson 15" by simp_all
    from K15 dom [of 14 14] have "(14, 14) \<in> dom richardson" by simp
    moreover from unc have "\<forall>k. 1 \<le> k \<and> k \<le> 14 \<longrightarrow>
               0.00001 < rms_diff (the (richardson (k, k))) (the (richardson (k, k - 1)))"
      by (auto simp: unconverged_def)
    ultimately show ?thesis using Raised e by simp
  next
    case (OscillationReturn p)
    with out have "K < 15" by simp
    with dom [of 14 14] have "(14, 14) \<notin> dom richardson" by simp
    with OscillationReturn show ?thesis by simp
  next
    case (RichardsonReturn k v)
    with out have Kk: "K = Suc k" and k1: "1 \<le> k" and v: "richardson (k, k) = Some v"
      and tol: "rms_diff v (the (richardson (k, k - 1))) \<le> 0.00001" by simp_all
    have "\<not> ?exhausted"
    proof
      assume ex: ?exhausted
      with dom [of 14 14] Kk K have "k = 14" by simp
      with ex k1 v tol show False by auto
    qed
    with RichardsonReturn show ?thesis by simp
  qed
  have 2: "out = Raised RichardsonDidNotConverge \<longrightarrow>
            corrector_step dwi_gradient m_sqrt init_mw_coords step_length =
              Some (Inl RichardsonDidNotConverge)"
    using step by simp
  have 3: "out \<noteq> Raised RichardsonDidNotConverge \<longrightarrow>
            (\<exists>v. corrector_step dwi_gradient m_sqrt init_mw_coords step_length = Some (Inr v))"
    using step out by (cases out) simp_all
  from 1 2 3 show ?thesis by blast
qed

text \<open>
  The run that converges at level 1 returns a point; the run with mass factor \<open>4/3\<close> and
  step length 100000 walks all fifteen levels without meeting the tolerance and raises.
\<close>

theorem corrector_raises_on_exhaustion_only_witness:
  "corrector_run const_gradient [1] [0] 1 = Some (RichardsonReturn 1 [1], converged_table) \<and>
   RichardsonReturn 1 [1] \<noteq> Raised RichardsonDidNotConverge \<and>
   (14, 14) \<notin> dom converged_table \<and>
   (\<exists>v. corrector_step const_gradient [1] [0] 1 = Some (Inr v)) \<and>
   corrector_step const_gradient [4 / 3] [0] 100000 = Some (Inl RichardsonDidNotConverge)"
proof -
  have n: "RichardsonReturn 1 [1] \<noteq> Raised RichardsonDidNotConverge" by simp
  from corrector_raises_on_exhaustion_only [OF converged_run] n
  have a: "\<exists>v. corrector_step const_gradient [1] [0] 1 = Some (Inr v)"
    by blast
  from raising_run obtain R where
    r: "corrector_run const_gradient [4 / 3] [0] 100000 = Some (Raised RichardsonDidNotConverge, R)"
    by blast
  from corrector_raises_on_exhaustion_only [OF r]
  have b: "corrector_step const_gradient [4 / 3] [0] 100000 = Some (Inl RichardsonDidNotConverge)"
    by blast
  have "(14, 14) \<notin> dom converged_table" by (simp add: converged_table_def)
  with converged_run n a b show ?thesis by blast
qed

text \<open>
  C4, as the code has it. The guard compares the point just computed with the entry
  \<^verbatim>\<open>k_coords[-2]\<close>, the point stored two micro-steps earlier, not with the point it left.
  Whenever the new point is within \<open>corr_step_length\<close> of that entry, the walk stops at once
  and hands the entry back; it is the entry before the last one of \<^verbatim>\<open>k_coords\<close>, and no
  earlier pair two steps apart was that close. The corrector then returns this point
  without raising, whatever the level.
\<close>

theorem corrector_oscillation_abort:
  "(\<forall>k_coords cur_coords cur_length.
      \<not> \<bar>step_length - cur_length\<bar> < 0.5 * c \<and> norm_v (dwi_gradient cur_coords) \<noteq> 0 \<and>
      k_coords \<noteq> [] \<and>
      norm_v (vsub (vadd cur_coords (corr_displacement c (dwi_gradient cur_coords)))
                   (last k_coords)) \<le> c \<longrightarrow>
      corrector_walk dwi_gradient m_sqrt init_mw_coords step_length c
          k_coords cur_coords cur_length =
        Some (Oscillation (last k_coords) (k_coords @ [cur_coords]))) \<and>
   (\<forall>p path. corrector_walk dwi_gradient m_sqrt init_mw_coords step_length c
          [] init_mw_coords 0 = Some (Oscillation p path) \<longrightarrow>
      2 \<le> length path \<and> p = path ! (length path - 2) \<and>
      norm_v (vsub (vadd (last path) (corr_displacement c (dwi_gradient (last path)))) p) \<le> c \<and>
      (\<forall>n. Suc (Suc n) < length path \<longrightarrow>
         c < norm_v (vsub (path ! Suc (Suc n)) (path ! n)))) \<and>
   (\<forall>k richardson p path. k < 15 \<and>
      corrector_walk dwi_gradient m_sqrt init_mw_coords step_length
          (corr_step_length step_length k) [] init_mw_coords 0 = Some (Oscillation p path) \<longrightarrow>
      corrector_levels dwi_gradient m_sqrt init_mw_coords step_length k richardson =
        Some (OscillationReturn p, richardson) \<and>
      returned_coords (OscillationReturn p) = Inr p) \<and>
   (\<forall>p richardson. corrector_run dwi_gradient m_sqrt init_mw_coords step_length =
        Some (OscillationReturn p, richardson) \<longrightarrow>
      corrector_step dwi_gradient m_sqrt init_mw_coords step_length = Some (Inr p) \<and>
      (\<exists>k\<le>14. \<exists>path. corrector_walk dwi_gradient m_sqrt init_mw_coords step_length
          (corr_step_length step_length k) [] init_mw_coords 0 = Some (Oscillation p path)))"
proof -
  have 1: "\<forall>k_coords cur_coords cur_length.
      \<not> \<bar>step_length - cur_length\<bar> < 0.5 * c \<and> norm_v (dwi_gradient cur_coords) \<noteq> 0 \<and>
      k_coords \<noteq> [] \<and>
      norm_v (vsub (vadd cur_coords (corr_displacement c (dwi_gradient cur_coords)))
                   (last k_coords)) \<le> c \<longrightarrow>
      corrector_walk dwi_gradient m_sqrt init_mw_coords step_length c
          k_coords cur_coords cur_length =
        Some (Oscillation (last k_coords) (k_coords @ [cur_coords]))"
    by (subst corrector_walk.simps) (simp add: index_m2_snoc)
  have 2: "\<forall>p path. corrector_walk dwi_gradient m_sqrt init_mw_coords step_length c
          [] init_mw_coords 0 = Some (Oscillation p path) \<longrightarrow>
      2 \<le> length path \<and> p = path ! (length path - 2) \<and>
      norm_v (vsub (vadd (last path) (corr_displacement c (dwi_gradient (last path)))) p) \<le> c \<and>
      (\<forall>n. Suc (Suc n) < length path \<longrightarrow>
         c < norm_v (vsub (path ! Suc (Suc n)) (path ! n)))"
    using walk_oscillation [of dwi_gradient m_sqrt init_mw_coords step_length c]
    unfolding osc_free_def by blast
  have 3: "\<forall>k richardson p path. k < 15 \<and>
      corrector_walk dwi_gradient m_sqrt init_mw_coords step_length
          (corr_step_length step_length k) [] init_mw_coords 0 = Some (Oscillation p path) \<longrightarrow>
      corrector_levels dwi_gradient m_sqrt init_mw_coords step_length k richardson =
        Some (OscillationReturn p, richardson) \<and>
      returned_coords (OscillationReturn p) = Inr p"
    by (subst corrector_levels.simps) simp
  have 4: "\<forall>p richardson. corrector_run dwi_gradient m_sqrt init_mw_coords step_length =
        Some (OscillationReturn p, richardson) \<longrightarrow>
      corrector_step dwi_gradient m_sqrt init_mw_coords step_length = Some (Inr p) \<and>
      (\<exists>k\<le>14. \<exists>path. corrector_walk dwi_gradient m_sqrt init_mw_coords step_length
          (corr_step_length step_length k) [] init_mw_coords 0 = Some (Oscillation p path))"
  proof (intro allI impI)
    fix p richardson
    assume run: "corrector_run dwi_gradient m_sqrt init_mw_coords step_length =
        Some (OscillationReturn p, richardson)"
    from run_post [OF run] obtain K path where "K < 15"
      "corrector_walk dwi_gradient m_sqrt init_mw_coords step_length
          (corr_step_length step_length K) [] init_mw_coords 0 = Some (Oscillation p path)"
      unfolding corrector_post_def by auto
    then have "\<exists>k\<le>14. \<exists>path. corrector_walk dwi_gradient m_sqrt init_mw_coords step_length
          (corr_step_length step_length k) [] init_mw_coords 0 = Some (Oscillation p path)"
      by (intro exI [of _ K]) auto
    with run show "corrector_step dwi_gradient m_sqrt init_mw_coords step_length = Some (Inr p) \<and>
      (\<exists>k\<le>14. \<exists>path. corrector_walk dwi_gradient m_sqrt init_mw_coords step_length
          (corr_step_length step_length k) [] init_mw_coords 0 = Some (Oscillation p path))"
      by (simp add: corrector_step_def)
  qed
  from 1 2 3 4 show ?thesis by blast
qed

text \<open>The field that reverses after one micro-step: the second micro-step comes back to the start.\<close>

theorem corrector_oscillation_abort_witness:
  "\<not> \<bar>1 - 1 / 19\<bar> < 0.5 * corr_step_length 1 0 \<and> norm_v (flip_gradient [1 / 19]) \<noteq> 0 \<and>
   [[0::real]] \<noteq> [] \<and>
   norm_v (vsub (vadd [1 / 19] (corr_displacement (corr_step_length 1 0) (flip_gradient [1 / 19])))
                (last [[0]])) \<le> corr_step_length 1 0 \<and>
   corrector_walk flip_gradient [1] [0] 1 (corr_step_length 1 0) [[0]] [1 / 19] (1 / 19) =
     Some (Oscillation (last [[0]]) ([[0]] @ [[1 / 19]])) \<and>
   corrector_walk flip_gradient [1] [0] 1 (corr_step_length 1 0) [] [0] 0 =
     Some (Oscillation [0] [[0], [1 / 19]]) \<and>
   [0::real] = [[0], [1 / 19]] ! (length [[0::real], [1 / 19]] - 2) \<and>
   corrector_run flip_gradient [1] [0] 1 = Some (OscillationReturn [0], Map.empty) \<and>
   corrector_step flip_gradient [1] [0] 1 = Some (Inr [0])"
proof -
  note inst = corrector_oscillation_abort
    [of 1 "corr_step_length 1 0" flip_gradient "[1]" "[0]"]
  have h: "\<not> \<bar>1 - 1 / 19\<bar> < 0.5 * corr_step_length 1 0" "norm_v (flip_gradient [1 / 19]) \<noteq> 0"
    "[[0::real]] \<noteq> []"
    "norm_v (vsub (vadd [1 / 19] (corr_displacement (corr_step_length 1 0) (flip_gradient [1 / 19])))
                (last [[0]])) \<le> corr_step_length 1 0"
    by (simp_all add: corr_step_length_def points_def flip_gradient_def vec_eval)
  from inst h have a: "corrector_walk flip_gradient [1] [0] 1 (corr_step_length 1 0)
      [[0]] [1 / 19] (1 / 19) = Some (Oscillation (last [[0]]) ([[0]] @ [[1 / 19]]))"
    by blast
  from inst flip_walk have b: "[0::real] = [[0], [1 / 19]] ! (length [[0::real], [1 / 19]] - 2)"
    by blast
  from inst flip_run have c: "corrector_step flip_gradient [1] [0] 1 = Some (Inr [0])"
    by blast
  from h a b c flip_walk flip_run show ?thesis by blast
qed

text \<open>
  C4 as stated fails: on the straight walk the first two points are \<open>corr_step_length\<close>
  apart, so their separation is not larger than the step size, and yet the walk is not
  aborted; the corrector returns the extrapolated point, not the entry before the last.
\<close>

theorem consecutive_separation_does_not_abort:
  "corrector_walk const_gradient [1] [0] 1 (corr_step_length 1 0) [] [0] 0 =
     Some (Reached [1] level0_path) \<and>
   norm_v (vsub (level0_path ! 1) (level0_path ! 0)) \<le> corr_step_length 1 0 \<and>
   corrector_step const_gradient [1] [0] 1 = Some (Inr [1]) \<and>
   level0_path ! (length level0_path - 2) \<noteq> [1]"
proof -
  have "norm_v (vsub (level0_path ! 1) (level0_path ! 0)) \<le> corr_step_length 1 0"
    by (simp add: level0_path_def corr_step_length_def points_def vsub_def upt_rec)
  moreover have "corrector_step const_gradient [1] [0] 1 = Some (Inr [1])"
    by (simp add: corrector_step_def converged_run)
  moreover have "level0_path ! (length level0_path - 2) \<noteq> [1]"
    by (simp add: level0_path_def)
  ultimately show ?thesis using level0_walk by simp
qed

text \<open>
  C5. The Euler integration of a step runs with the step size
  \<open>step_length / (max_pred_steps / conv_fact)\<close>, \<open>conv_fact\<close> being the larger of 2 and the
  ratio of the norms of the un-weighted and the mass-weighted gradient, and the gradient
  being the one of the calculator at the coordinates the step starts from (the Hessian
  stage leaves coordinates, step length and budget as they were). For a step length that
  is not negative and a positive budget, every Euler displacement has exactly this norm.
\<close>

theorem euler_step_length_formula:
  "predictor env self =
     euler_loop (geom_m_sqrt env) (self_mw_coords self) (self_step_length self)
       (self_step_length self /
          (real_of_int (self_max_pred_steps self) /
             max 2 (norm_v (unweight_vec env (calc_mw_gradient env (self_mw_coords self))) /
                    norm_v (calc_mw_gradient env (self_mw_coords self)))))
       (calc_mw_gradient env (self_mw_coords self)) (self_mw_H self)
       (nat (self_max_pred_steps self)) (self_mw_coords self)
       (calc_mw_gradient env (self_mw_coords self)) [] \<and>
   (\<forall>euler_mw_grad. 0 \<le> self_step_length self \<and> 0 < self_max_pred_steps self \<and>
        norm_v euler_mw_grad \<noteq> 0 \<longrightarrow>
      norm_v (euler_displacement
                (euler_step_length env self (calc_mw_gradient env (self_mw_coords self)))
                euler_mw_grad) =
        self_step_length self /
          (real_of_int (self_max_pred_steps self) /
             max 2 (norm_v (unweight_vec env (calc_mw_gradient env (self_mw_coords self))) /
                    norm_v (calc_mw_gradient env (self_mw_coords self))))) \<and>
   (\<forall>self0. hessian_stage env self0 = Inr self \<longrightarrow>
      self_mw_coords self = self_mw_coords self0 \<and>
      self_step_length self = self_step_length self0 \<and>
      self_max_pred_steps self = self_max_pred_steps self0)"
proof -
  let ?g = "calc_mw_gradient env (self_mw_coords self)"
  have 1: "predictor env self =
     euler_loop (geom_m_sqrt env) (self_mw_coords self) (self_step_length self)
       (self_step_length self /
          (real_of_int (self_max_pred_steps self) /
             max 2 (norm_v (unweight_vec env ?g) / norm_v ?g)))
       ?g (self_mw_H self) (nat (self_max_pred_steps self)) (self_mw_coords self) ?g []"
    by (simp add: predictor_def euler_step_length_def conv_fact_def Let_def)
  have 2: "\<forall>euler_mw_grad. 0 \<le> self_step_length self \<and> 0 < self_max_pred_steps self \<and>
        norm_v euler_mw_grad \<noteq> 0 \<longrightarrow>
      norm_v (euler_displacement (euler_step_length env self ?g) euler_mw_grad) =
        self_step_length self /
          (real_of_int (self_max_pred_steps self) /
             max 2 (norm_v (unweight_vec env ?g) / norm_v ?g))"
  proof (intro allI impI)
    fix gr
    assume h: "0 \<le> self_step_length self \<and> 0 < self_max_pred_steps self \<and> norm_v gr \<noteq> 0"
    have "0 < conv_fact env ?g" using conv_fact_ge_2 [of env ?g] by linarith
    with h have "0 \<le> euler_step_length env self ?g"
      by (simp add: euler_step_length_def)
    with h norm_euler_displacement [of gr "euler_step_length env self ?g"]
    show "norm_v (euler_displacement (euler_step_length env self ?g) gr) =
        self_step_length self /
          (real_of_int (self_max_pred_steps self) /
             max 2 (norm_v (unweight_vec env ?g) / norm_v ?g))"
      by (simp add: euler_step_length_def conv_fact_def)
  qed
  have 3: "\<forall>self0. hessian_stage env self0 = Inr self \<longrightarrow>
      self_mw_coords self = self_mw_coords self0 \<and>
      self_step_length self = self_step_length self0 \<and>
      self_max_pred_steps self = self_max_pred_steps self0"
    using hessian_stage_frame [of env _ self] by blast
  from 1 2 3 show ?thesis by blast
qed

text \<open>The toy system: four steps for a length of 1 and a factor of 2 give steps of 1/2.\<close>

theorem euler_step_length_formula_witness:
  "(0::real) \<le> self_step_length toy_self \<and> 0 < self_max_pred_steps toy_self \<and>
   norm_v [1] \<noteq> 0 \<and>
   norm_v (euler_displacement
      (euler_step_length toy_env toy_self (calc_mw_gradient toy_env (self_mw_coords toy_self))) [1]) =
     1 / 2"
proof -
  have h: "(0::real) \<le> self_step_length toy_self" "0 < self_max_pred_steps toy_self"
    "norm_v [1] \<noteq> 0"
    by (simp_all add: toy_self_def)
  from euler_step_length_formula [of toy_env toy_self] h
  have "norm_v (euler_displacement
      (euler_step_length toy_env toy_self (calc_mw_gradient toy_env (self_mw_coords toy_self))) [1]) =
        self_step_length toy_self /
          (real_of_int (self_max_pred_steps toy_self) /
             max 2 (norm_v (unweight_vec toy_env (calc_mw_gradient toy_env (self_mw_coords toy_self))) /
                    norm_v (calc_mw_gradient toy_env (self_mw_coords toy_self))))"
    by blast
  also have "\<dots> = 1 / 2" by (simp add: toy_env_def toy_self_def)
  finally show ?thesis using h by simp
qed

text \<open>
  C6, as the code has it. In a step that gets past its Hessian stage, with a positive
  budget and a history of IRC points and gradients that is not empty: when the Euler loop
  has used its whole budget, every arc length it computed was below \<open>step_length\<close>, and
  the predictor raises nothing. If the RMS of the un-weighted Taylor gradient at the point
  reached is at most five times \<open>rms_grad_thresh\<close>, the step sets \<^verbatim>\<open>converged\<close> and returns
  with that point. Otherwise the point is taken as it is: gradient and energy are read
  there, the Hessian is updated against the last IRC point, the DWI gets the sample, and
  the corrector is called from the start point of the step with the configured
  \<open>step_length\<close>, not with the length that was reached; the step then ends as the
  corrector does.
\<close>

theorem exhausted_predictor_continues:
  assumes "hessian_stage env self0 = Inr self"
    and "0 < self_max_pred_steps self"
    and "index_m1 (self_irc_mw_coords self) = Some last_coords"
    and "index_m1 (self_irc_mw_gradients self) = Some last_gradient"
    and "predictor env self = Exhausted ec eg lengths"
  shows "length lengths = nat (self_max_pred_steps self) \<and>
         (\<forall>l\<in>set lengths. l < self_step_length self) \<and>
         (rms env (unweight_vec env eg) \<le> 5 * self_rms_grad_thresh self \<longrightarrow>
            step env self0 =
              Some (Normal (Inr (self\<lparr>self_mw_coords := ec, self_converged := True\<rparr>)))) \<and>
         (\<not> rms env (unweight_vec env eg) \<le> 5 * self_rms_grad_thresh self \<longrightarrow>
            (\<exists>self1.
               self_mw_coords self1 = ec \<and>
               self_events self1 = self_events self @
                 [Evaluate ec,
                  HessianUpdate (self_mw_H self) (vsub ec last_coords)
                    (vsub (calc_mw_gradient env ec) last_gradient),
                  DwiUpdate ec (calc_energy env ec) (calc_mw_gradient env ec) (self_mw_H self1)] \<and>
               self_mw_H self1 =
                 madd (self_mw_H self)
                   (fst (hessian_update_func env (self_mw_H self) (vsub ec last_coords)
                      (vsub (calc_mw_gradient env ec) last_gradient))) \<and>
               self_dwi self1 = self_dwi self @
                 [(ec, calc_energy env ec, calc_mw_gradient env ec, self_mw_H self1)] \<and>
               step env self0 =
                 (case corrector_step (\<lambda>x. snd (dwi_interpolate env (self_dwi self1) x))
                         (geom_m_sqrt env) (self_mw_coords self0) (self_step_length self0) of
                    None \<Rightarrow> None
                  | Some (Inl e) \<Rightarrow> Some (Normal (Inl e))
                  | Some (Inr corrected_mw_coords) \<Rightarrow>
                      Some (Normal (Inr (self1\<lparr>self_mw_coords := corrected_mw_coords,
                        self_events := self_events self1 @
                          [Corrector (self_mw_coords self0) (self_step_length self0)]\<rparr>))))))"
proof -
  note fr = hessian_stage_frame [OF assms(1)]
  have 1: "length lengths = nat (self_max_pred_steps self) \<and>
         (\<forall>l\<in>set lengths. l < self_step_length self)"
    by (rule predictor_exhausted_lengths [OF assms(5)])
  have 2: "rms env (unweight_vec env eg) \<le> 5 * self_rms_grad_thresh self \<longrightarrow>
            step env self0 =
              Some (Normal (Inr (self\<lparr>self_mw_coords := ec, self_converged := True\<rparr>)))"
    using assms(1,2,5) by (simp add: step_def)
  let ?H = "madd (self_mw_H self)
             (fst (hessian_update_func env (self_mw_H self) (vsub ec last_coords)
                (vsub (calc_mw_gradient env ec) last_gradient)))"
  let ?s1 = "self\<lparr>self_mw_coords := ec, self_mw_H := ?H,
          self_dwi := self_dwi self @ [(ec, calc_energy env ec, calc_mw_gradient env ec, ?H)],
          self_events := self_events self @
            [Evaluate ec,
             HessianUpdate (self_mw_H self) (vsub ec last_coords)
               (vsub (calc_mw_gradient env ec) last_gradient),
             DwiUpdate ec (calc_energy env ec) (calc_mw_gradient env ec) ?H]\<rparr>"
  have upd: "endpoint_update env (self\<lparr>self_mw_coords := ec\<rparr>) ec = Inr ?s1"
    using assms(3,4) by (simp add: endpoint_update_def Let_def)
  have 3: "\<not> rms env (unweight_vec env eg) \<le> 5 * self_rms_grad_thresh self \<longrightarrow>
            (\<exists>self1.
               self_mw_coords self1 = ec \<and>
               self_events self1 = self_events self @
                 [Evaluate ec,
                  HessianUpdate (self_mw_H self) (vsub ec last_coords)
                    (vsub (calc_mw_gradient env ec) last_gradient),
                  DwiUpdate ec (calc_energy env ec) (calc_mw_gradient env ec) (self_mw_H self1)] \<and>
               self_mw_H self1 = ?H \<and>
               self_dwi self1 = self_dwi self @
                 [(ec, calc_energy env ec, calc_mw_gradient env ec, self_mw_H self1)] \<and>
               step env self0 =
                 (case corrector_step (\<lambda>x. snd (dwi_interpolate env (self_dwi self1) x))
                         (geom_m_sqrt env) (self_mw_coords self0) (self_step_length self0) of
                    None \<Rightarrow> None
                  | Some (Inl e) \<Rightarrow> Some (Normal (Inl e))
                  | Some (Inr corrected_mw_coords) \<Rightarrow>
                      Some (Normal (Inr (self1\<lparr>self_mw_coords := corrected_mw_coords,
                        self_events := self_events self1 @
                          [Corrector (self_mw_coords self0) (self_step_length self0)]\<rparr>)))))"
  proof
    assume nc: "\<not> rms env (unweight_vec env eg) \<le> 5 * self_rms_grad_thresh self"
    from nc assms(1,2,5) upd fr
    have "step env self0 =
                 (case corrector_step (\<lambda>x. snd (dwi_interpolate env (self_dwi ?s1) x))
                         (geom_m_sqrt env) (self_mw_coords self0) (self_step_length self0) of
                    None \<Rightarrow> None
                  | Some (Inl e) \<Rightarrow> Some (Normal (Inl e))
                  | Some (Inr corrected_mw_coords) \<Rightarrow>
                      Some (Normal (Inr (?s1\<lparr>self_mw_coords := corrected_mw_coords,
                        self_events := self_events ?s1 @
                          [Corrector (self_mw_coords self0) (self_step_length self0)]\<rparr>))))"
      by (auto simp: step_def post_predictor_def split: option.splits sum.splits)
    then show "\<exists>self1.
               self_mw_coords self1 = ec \<and>
               self_events self1 = self_events self @
                 [Evaluate ec,
                  HessianUpdate (self_mw_H self) (vsub ec last_coords)
                    (vsub (calc_mw_gradient env ec) last_gradient),
                  DwiUpdate ec (calc_energy env ec) (calc_mw_gradient env ec) (self_mw_H self1)] \<and>
               self_mw_H self1 = ?H \<and>
               self_dwi self1 = self_dwi self @
                 [(ec, calc_energy env ec, calc_mw_gradient env ec, self_mw_H self1)] \<and>
               step env self0 =
                 (case corrector_step (\<lambda>x. snd (dwi_interpolate env (self_dwi self1) x))
                         (geom_m_sqrt env) (self_mw_coords self0) (self_step_length self0) of
                    None \<Rightarrow> None
                  | Some (Inl e) \<Rightarrow> Some (Normal (Inl e))
                  | Some (Inr corrected_mw_coords) \<Rightarrow>
                      Some (Normal (Inr (self1\<lparr>self_mw_coords := corrected_mw_coords,
                        self_events := self_events self1 @
                          [Corrector (self_mw_coords self0) (self_step_length self0)]\<rparr>))))"
      by (intro exI [of _ ?s1]) simp
  qed
  from 1 2 3 show ?thesis by blast
qed

text \<open>
  The toy system oscillates about its minimum and exhausts its budget: with a threshold
  of 1 it converges, with a threshold of 1/10 it goes on to the corrector.
\<close>

theorem exhausted_predictor_continues_witness:
  "hessian_stage toy_env (toy_self\<lparr>self_rms_grad_thresh := 1\<rparr>) =
     Inr (toy_self\<lparr>self_rms_grad_thresh := 1, self_events := [Evaluate [0]]\<rparr>) \<and>
   0 < self_max_pred_steps (toy_self\<lparr>self_rms_grad_thresh := 1, self_events := [Evaluate [0]]\<rparr>) \<and>
   index_m1 (self_irc_mw_coords
     (toy_self\<lparr>self_rms_grad_thresh := 1, self_events := [Evaluate [0]]\<rparr>)) = Some [0] \<and>
   index_m1 (self_irc_mw_gradients
     (toy_self\<lparr>self_rms_grad_thresh := 1, self_events := [Evaluate [0]]\<rparr>)) = Some [1] \<and>
   predictor toy_env (toy_self\<lparr>self_rms_grad_thresh := 1, self_events := [Evaluate [0]]\<rparr>) =
     Exhausted [0] [1] [0, 1 / 2, 0, 1 / 2] \<and>
   rms toy_env (unweight_vec toy_env [1]) \<le> 5 * 1 \<and>
   step toy_env (toy_self\<lparr>self_rms_grad_thresh := 1\<rparr>) =
     Some (Normal (Inr (toy_self\<lparr>self_rms_grad_thresh := 1, self_events := [Evaluate [0]],
        self_mw_coords := [0], self_converged := True\<rparr>))) \<and>
   hessian_stage toy_env (toy_self\<lparr>self_rms_grad_thresh := 1 / 10\<rparr>) =
     Inr (toy_self\<lparr>self_rms_grad_thresh := 1 / 10, self_events := [Evaluate [0]]\<rparr>) \<and>
   \<not> rms toy_env (unweight_vec toy_env [1]) \<le> 5 * (1 / 10) \<and>
   (case step toy_env (toy_self\<lparr>self_rms_grad_thresh := 1 / 10\<rparr>) of
      Some (Normal (Inr self')) \<Rightarrow>
        self_events self' =
          [Evaluate [0], Evaluate [0], HessianUpdate [[4]] [0] [0],
           DwiUpdate [0] 0 [1] [[4]], Corrector [0] 1] \<and>
        self_dwi self' = [([0], 0, [1], [[4]])] \<and> self_mw_coords self' = [1]
    | _ \<Rightarrow> False)"
proof -
  let ?a = "toy_self\<lparr>self_rms_grad_thresh := 1, self_events := [Evaluate [0]]\<rparr>"
  let ?b = "toy_self\<lparr>self_rms_grad_thresh := 1 / 10, self_events := [Evaluate [0]]\<rparr>"
  let ?u = "toy_self\<lparr>self_rms_grad_thresh := 1 / 10\<rparr>"
  have ha: "0 < self_max_pred_steps ?a" "index_m1 (self_irc_mw_coords ?a) = Some [0]"
    "index_m1 (self_irc_mw_gradients ?a) = Some [1]"
    by (simp_all add: toy_self_def index_m1_def)
  have hb: "0 < self_max_pred_steps ?b" "index_m1 (self_irc_mw_coords ?b) = Some [0]"
    "index_m1 (self_irc_mw_gradients ?b) = Some [1]"
    by (simp_all add: toy_self_def index_m1_def)
  have r: "rms toy_env (unweight_vec toy_env [1]) = 1" by (simp add: toy_env_def)
  from exhausted_predictor_continues [OF toy_stage ha toy_staged_predictor] r
  have a: "step toy_env (toy_self\<lparr>self_rms_grad_thresh := 1\<rparr>) =
     Some (Normal (Inr (?a\<lparr>self_mw_coords := [0], self_converged := True\<rparr>)))"
    by simp
  have nc: "\<not> rms toy_env (unweight_vec toy_env [1]) \<le> 5 * self_rms_grad_thresh ?b"
    using r by (simp add: toy_self_def)
  from exhausted_predictor_continues [OF toy_stage hb toy_staged_predictor] nc
  obtain self1 where ev: "self_events self1 = self_events ?b @
         [Evaluate [0],
          HessianUpdate (self_mw_H ?b) (vsub [0] [0]) (vsub (calc_mw_gradient toy_env [0]) [1]),
          DwiUpdate [0] (calc_energy toy_env [0]) (calc_mw_gradient toy_env [0])
            (self_mw_H self1)]"
    and H: "self_mw_H self1 = madd (self_mw_H ?b)
         (fst (hessian_update_func toy_env (self_mw_H ?b) (vsub [0] [0])
            (vsub (calc_mw_gradient toy_env [0]) [1])))"
    and dwi: "self_dwi self1 = self_dwi ?b @
         [([0], calc_energy toy_env [0], calc_mw_gradient toy_env [0], self_mw_H self1)]"
    and co: "self_mw_coords self1 = [0]"
    and st: "step toy_env ?u =
         (case corrector_step (\<lambda>x. snd (dwi_interpolate toy_env (self_dwi self1) x))
                 (geom_m_sqrt toy_env) (self_mw_coords ?u) (self_step_length ?u) of
            None \<Rightarrow> None
          | Some (Inl e) \<Rightarrow> Some (Normal (Inl e))
          | Some (Inr corrected_mw_coords) \<Rightarrow>
              Some (Normal (Inr (self1\<lparr>self_mw_coords := corrected_mw_coords,
                self_events := self_events self1 @
                  [Corrector (self_mw_coords ?u) (self_step_length ?u)]\<rparr>))))"
    by blast
  have c0: "self_mw_coords ?u = [0]" "self_step_length ?u = 1"
    by (simp_all add: toy_self_def)
  have H': "self_mw_H self1 = [[4]]"
    using H by (simp add: toy_self_def toy_env_def madd_def vadd_def)
  have ev': "self_events self1 =
      [Evaluate [0], Evaluate [0], HessianUpdate [[4]] [0] [0], DwiUpdate [0] 0 [1] [[4]]]"
    using ev H' by (simp add: toy_self_def toy_env_def vsub_def)
  have dwi': "self_dwi self1 = [([0], 0, [1], [[4]])]"
    using dwi H' by (simp add: toy_self_def toy_env_def)
  from st c0 toy_corrector [of "self_dwi self1"]
  have st': "step toy_env ?u =
      Some (Normal (Inr (self1\<lparr>self_mw_coords := [1],
                self_events := self_events self1 @ [Corrector [0] 1]\<rparr>)))"
    by simp
  with ev' dwi' have b: "(case step toy_env ?u of
      Some (Normal (Inr self')) \<Rightarrow>
        self_events self' =
          [Evaluate [0], Evaluate [0], HessianUpdate [[4]] [0] [0],
           DwiUpdate [0] 0 [1] [[4]], Corrector [0] 1] \<and>
        self_dwi self' = [([0], 0, [1], [[4]])] \<and> self_mw_coords self' = [1]
    | _ \<Rightarrow> False)"
    by simp
  from toy_stage [of 1] toy_stage [of "1 / 10"] ha
    toy_staged_predictor [where t = 1 and ev = "[Evaluate [0]]"] r a b
  show ?thesis by simp
qed

text \<open>
  C6 as stated fails. With a threshold of 1/10 the toy system exhausts its budget at the
  start point, at length 0, and the corrector is still called with the step length 1 and
  returns the point at distance 1. With a budget of zero the loop is exhausted at once and
  the step raises.
\<close>

theorem exhausted_predictor_ignores_achieved_length:
  "predictor toy_env (toy_self\<lparr>self_rms_grad_thresh := 1 / 10, self_events := [Evaluate [0]]\<rparr>) =
     Exhausted [0] [1] [0, 1 / 2, 0, 1 / 2] \<and>
   get_integration_length (geom_m_sqrt toy_env) (self_mw_coords toy_self) [0] = 0 \<and>
   self_step_length toy_self = 1 \<and>
   (case step toy_env (toy_self\<lparr>self_rms_grad_thresh := 1 / 10\<rparr>) of
      Some (Normal (Inr self')) \<Rightarrow>
        last (self_events self') = Corrector [0] 1 \<and> self_mw_coords self' = [1]
    | _ \<Rightarrow> False) \<and>
   predictor toy_env (toy_self\<lparr>self_max_pred_steps := 0, self_events := [Evaluate [0]]\<rparr>) =
     Exhausted [0] [1] [] \<and>
   step toy_env (toy_self\<lparr>self_max_pred_steps := 0\<rparr>) = Some (Normal (Inl ZeroDivisionError))"
proof -
  have a: "get_integration_length (geom_m_sqrt toy_env) (self_mw_coords toy_self) [0] = 0"
    "self_step_length toy_self = 1"
    by (simp_all add: toy_env_def toy_self_def vec_eval)
  have b: "(case step toy_env (toy_self\<lparr>self_rms_grad_thresh := 1 / 10\<rparr>) of
      Some (Normal (Inr self')) \<Rightarrow>
        last (self_events self') = Corrector [0] 1 \<and> self_mw_coords self' = [1]
    | _ \<Rightarrow> False)"
    by (simp add: step_def toy_stage toy_staged_predictor post_predictor_def endpoint_update_def
        Let_def index_m1_def toy_corrector)
       (simp add: toy_self_def toy_env_def corrector_step_def converged_run)
  have c: "predictor toy_env (toy_self\<lparr>self_max_pred_steps := 0, self_events := [Evaluate [0]]\<rparr>) =
     Exhausted [0] [1] []"
    by (simp add: predictor_def Let_def toy_eval)
  have d: "step toy_env (toy_self\<lparr>self_max_pred_steps := 0\<rparr>) =
      Some (Normal (Inl ZeroDivisionError))"
    by (simp add: step_def hessian_stage_def Let_def toy_self_def toy_env_def)
  from toy_staged_predictor [where t = "1 / 10" and ev = "[Evaluate [0]]"] a b c d
  show ?thesis by simp
qed

text \<open>
  C7, as the code has it. The length the predictor computes is the distance of the current
  point from the start point in un-mass-weighted coordinates. For vectors of one shape
  and every entry of \<^verbatim>\<open>m_sqrt\<close> at least \<open>\<mu> > 0\<close>, in any predictor phase: from one Euler
  sub-step to the next the length rises by at most \<open>euler_step_length / \<mu>\<close> (it may
  fall); if the loop exhausts its budget, every length it computed was below
  \<open>step_length\<close>; if the loop is left by reaching the target, the lengths start at 0, all
  but the last are below \<open>step_length\<close>, the last is the length of the point reached and at
  least \<open>step_length\<close>, and it is less than \<open>step_length + euler_step_length / \<mu>\<close> once a
  sub-step has been taken.
\<close>

theorem predictor_arc_length_bounds:
  assumes "length (self_mw_coords self) = n" and "length (geom_m_sqrt env) = n"
    and "length (calc_mw_gradient env (self_mw_coords self)) = n"
    and "length (self_mw_H self) = n"
    and "0 < \<mu>" and "\<forall>x\<in>set (geom_m_sqrt env). \<mu> \<le> x"
  shows "(\<forall>j. Suc j < length (lengths_of (predictor env self)) \<longrightarrow>
            lengths_of (predictor env self) ! Suc j \<le> lengths_of (predictor env self) ! j +
              \<bar>euler_step_length env self (calc_mw_gradient env (self_mw_coords self))\<bar> / \<mu>) \<and>
         (\<forall>euler_mw_coords euler_mw_grad lengths.
            predictor env self = Exhausted euler_mw_coords euler_mw_grad lengths \<longrightarrow>
            (\<forall>l\<in>set lengths. l < self_step_length self)) \<and>
         (\<forall>euler_mw_coords euler_mw_grad lengths.
            predictor env self = ReachedTarget euler_mw_coords euler_mw_grad lengths \<longrightarrow>
            lengths \<noteq> [] \<and> hd lengths = 0 \<and>
            last lengths =
              get_integration_length (geom_m_sqrt env) (self_mw_coords self) euler_mw_coords \<and>
            self_step_length self \<le> last lengths \<and>
            (\<forall>l\<in>set (butlast lengths). l < self_step_length self) \<and>
            (2 \<le> length lengths \<longrightarrow>
               last lengths < self_step_length self +
                 \<bar>euler_step_length env self (calc_mw_gradient env (self_mw_coords self))\<bar> / \<mu>))"
proof -
  have 1: "\<forall>j. Suc j < length (lengths_of (predictor env self)) \<longrightarrow>
            lengths_of (predictor env self) ! Suc j \<le> lengths_of (predictor env self) ! j +
              \<bar>euler_step_length env self (calc_mw_gradient env (self_mw_coords self))\<bar> / \<mu>"
    using predictor_lengths_increase [OF assms] by blast
  have 2: "\<forall>euler_mw_coords euler_mw_grad lengths.
            predictor env self = Exhausted euler_mw_coords euler_mw_grad lengths \<longrightarrow>
            (\<forall>l\<in>set lengths. l < self_step_length self)"
    using predictor_exhausted_lengths by blast
  have 3: "\<forall>euler_mw_coords euler_mw_grad lengths.
            predictor env self = ReachedTarget euler_mw_coords euler_mw_grad lengths \<longrightarrow>
            lengths \<noteq> [] \<and> hd lengths = 0 \<and>
            last lengths =
              get_integration_length (geom_m_sqrt env) (self_mw_coords self) euler_mw_coords \<and>
            self_step_length self \<le> last lengths \<and>
            (\<forall>l\<in>set (butlast lengths). l < self_step_length self) \<and>
            (2 \<le> length lengths \<longrightarrow>
               last lengths < self_step_length self +
                 \<bar>euler_step_length env self (calc_mw_gradient env (self_mw_coords self))\<bar> / \<mu>)"
  proof (intro allI impI)
    fix ec eg ls assume r: "predictor env self = ReachedTarget ec eg ls"
    from predictor_reached_lengths [OF r assms]
    show "ls \<noteq> [] \<and> hd ls = 0 \<and>
            last ls = get_integration_length (geom_m_sqrt env) (self_mw_coords self) ec \<and>
            self_step_length self \<le> last ls \<and>
            (\<forall>l\<in>set (butlast ls). l < self_step_length self) \<and>
            (2 \<le> length ls \<longrightarrow>
               last ls < self_step_length self +
                 \<bar>euler_step_length env self (calc_mw_gradient env (self_mw_coords self))\<bar> / \<mu>)"
      by blast
  qed
  from 1 2 3 show ?thesis by blast
qed

text \<open>
  The toy system: with the Hessian 4 it exhausts its budget with the lengths
  0, 1/2, 0, 1/2; with a zero Hessian it reaches the target with the lengths 0, 1/2, 1.
\<close>

theorem predictor_arc_length_bounds_witness:
  "length (self_mw_coords toy_self) = 1 \<and> length (geom_m_sqrt toy_env) = 1 \<and>
   length (calc_mw_gradient toy_env (self_mw_coords toy_self)) = 1 \<and>
   length (self_mw_H toy_self) = 1 \<and> (0::real) < 1 \<and> geom_m_sqrt toy_env = [1] \<and>
   predictor toy_env toy_self = Exhausted [0] [1] [0, 1 / 2, 0, 1 / 2] \<and>
   Suc 0 < length (lengths_of (predictor toy_env toy_self)) \<and>
   lengths_of (predictor toy_env toy_self) ! Suc 0 \<le> lengths_of (predictor toy_env toy_self) ! 0 +
     \<bar>euler_step_length toy_env toy_self (calc_mw_gradient toy_env (self_mw_coords toy_self))\<bar> / 1 \<and>
   [0, 1 / 2, 0, 1 / 2] ! 3 < self_step_length toy_self \<and>
   predictor toy_env (toy_self\<lparr>self_mw_H := [[0]]\<rparr>) = ReachedTarget [- 1] [1] [0, 1 / 2, 1] \<and>
   self_step_length (toy_self\<lparr>self_mw_H := [[0]]\<rparr>) \<le> last [0, 1 / 2, 1] \<and>
   2 \<le> length [0, 1 / 2, 1 :: real] \<and>
   last [0, 1 / 2, 1] < self_step_length (toy_self\<lparr>self_mw_H := [[0]]\<rparr>) +
     \<bar>euler_step_length toy_env (toy_self\<lparr>self_mw_H := [[0]]\<rparr>)
        (calc_mw_gradient toy_env (self_mw_coords (toy_self\<lparr>self_mw_H := [[0]]\<rparr>)))\<bar> / 1"
proof -
  let ?s = "toy_self\<lparr>self_mw_H := [[0]]\<rparr>"
  have p: "predictor toy_env ?s = ReachedTarget [- 1] [1] [0, 1 / 2, 1]"
    using toy_flat_predictor [of "[]"] by (simp add: toy_self_def)
  have h: "length (self_mw_coords toy_self) = 1" "length (geom_m_sqrt toy_env) = 1"
    "length (calc_mw_gradient toy_env (self_mw_coords toy_self)) = 1"
    "length (self_mw_H toy_self) = 1"
    "(0::real) < 1" "\<forall>x\<in>set (geom_m_sqrt toy_env). 1 \<le> x"
    by (simp_all add: toy_self_def toy_env_def)
  have h': "length (self_mw_coords ?s) = 1" "length (geom_m_sqrt toy_env) = 1"
    "length (calc_mw_gradient toy_env (self_mw_coords ?s)) = 1" "length (self_mw_H ?s) = 1"
    "(0::real) < 1" "\<forall>x\<in>set (geom_m_sqrt toy_env). 1 \<le> x"
    by (simp_all add: toy_self_def toy_env_def)
  have m: "geom_m_sqrt toy_env = [1]" by (simp add: toy_env_def)
  have len: "Suc 0 < length (lengths_of (predictor toy_env toy_self))"
    by (simp add: toy_predictor)
  have two: "2 \<le> length [0, 1 / 2, 1 :: real]" by simp
  note a = predictor_arc_length_bounds [OF h, of]
  note b = predictor_arc_length_bounds [OF h']
  from a len have a1: "lengths_of (predictor toy_env toy_self) ! Suc 0 \<le>
      lengths_of (predictor toy_env toy_self) ! 0 +
      \<bar>euler_step_length toy_env toy_self (calc_mw_gradient toy_env (self_mw_coords toy_self))\<bar> / 1"
    by blast
  from a toy_predictor have "\<forall>l\<in>set [0, 1 / 2, 0, 1 / 2]. l < self_step_length toy_self"
    by blast
  then have a2: "[0, 1 / 2, 0, 1 / 2] ! 3 < self_step_length toy_self" by simp
  from b p two have b1: "self_step_length ?s \<le> last [0, 1 / 2, 1]"
    and b2: "last [0, 1 / 2, 1] < self_step_length ?s +
     \<bar>euler_step_length toy_env ?s (calc_mw_gradient toy_env (self_mw_coords ?s))\<bar> / 1"
    by blast+
  from h(1-5) m toy_predictor len a1 a2 p b1 b2 two show ?thesis by blast
qed

text \<open>
  C7 as stated fails: on the toy surface with a budget of four the lengths are
  0, 1/2, 0, 1/2; the length falls from the second to the third Euler step, and the
  integration ends at length 0 for a target of 1.
\<close>

theorem arc_length_not_monotone:
  "predictor toy_env toy_self = Exhausted [0] [1] [0, 1 / 2, 0, 1 / 2] \<and>
   [0, 1 / 2, 0, 1 / 2] ! 2 < [0, 1 / 2, 0, 1 / 2 :: real] ! 1 \<and>
   get_integration_length (geom_m_sqrt toy_env) (self_mw_coords toy_self) [0] = 0 \<and>
   self_step_length toy_self = 1"
  by (simp add: toy_predictor) (simp add: toy_env_def toy_self_def vec_eval)






end
